theory Spec2Isabelle
  imports Complex_Main "HOL-Library.Word" "HOL-Library.Log_Nat"
begin

section \<open>JavaScript numbers\<close>

text \<open>
  The component \<^verbatim>\<open>WaterRipple.tsx\<close> computes with JavaScript numbers, which are
  binary64 floating-point numbers, and keeps its height field in two
  \<^verbatim>\<open>Float32Array\<close>s, whose cells are binary32 numbers. A number is modelled as a
  finite real, one of the two infinities, or NaN; an arithmetic operation computes the
  exact real result and rounds it to binary64, and a store into a \<^verbatim>\<open>Float32Array\<close>
  rounds to binary32. The special values are part of the model because the code meets
  them: a typed-array read outside the array yields \<^verbatim>\<open>undefined\<close>, which arithmetic
  turns into NaN, and \<^verbatim>\<open>~~\<close> maps NaN and the infinities to 0. One thing is
  abstracted: the two zeros are one value (the component never divides by a zero, and
  \<^verbatim>\<open>~~\<close> maps both zeros to 0).
\<close>

datatype jsnum = Fin real | PInf | NInf | NaN

subsection \<open>Rounding to a binary format\<close>

text \<open>
  \<open>ilog2 x\<close> is the exponent of a positive real: the integer \<open>e\<close> with
  \<open>2^e \<le> x < 2^(e+1)\<close>, computed from the bit length of the integer part of \<open>x\<close> or
  of \<open>1 / x\<close>.
\<close>

definition ilog2 :: "real \<Rightarrow> int" where
  "ilog2 x =
     (if 1 \<le> x then bitlen \<lfloor>x\<rfloor> - 1
      else (let k = bitlen \<lfloor>1 / x\<rfloor> - 1 in if x * 2 ^ nat k = 1 then - k else - k - 1))"

text \<open>The nearest integer, a tie going to the even one.\<close>

definition round_even :: "real \<Rightarrow> int" where
  "round_even m =
     (let f = \<lfloor>m\<rfloor>; d = m - of_int f
      in if d < 1 / 2 then f else if 1 / 2 < d then f + 1 else if even f then f else f + 1)"

text \<open>
  IEEE 754 round-to-nearest, ties to even, into the binary format with \<open>p\<close> bits of
  precision and exponents from \<open>emin\<close> to \<open>emax\<close>: the real is rounded to a multiple
  of the spacing \<open>2^(e - p + 1)\<close> of its binade (the subnormal spacing below
  \<open>2^emin\<close>), and a result of magnitude \<open>2^(emax + 1)\<close> or more becomes an infinity.
\<close>

definition round_to :: "int \<Rightarrow> int \<Rightarrow> int \<Rightarrow> real \<Rightarrow> jsnum" where
  "round_to p emin emax x =
     (if x = 0 then Fin 0
      else
        (let e = max (ilog2 \<bar>x\<bar>) emin;
             q = 2 powi (e - p + 1);
             y = of_int (round_even (x / q)) * q
         in if 2 powi (emax + 1) \<le> \<bar>y\<bar> then (if 0 < x then PInf else NInf) else Fin y))"

definition binary64 :: "real \<Rightarrow> jsnum" where
  "binary64 = round_to 53 (- 1022) 1023"

definition binary32 :: "real \<Rightarrow> jsnum" where
  "binary32 = round_to 24 (- 126) 127"

subsection \<open>Arithmetic\<close>

fun js_neg :: "jsnum \<Rightarrow> jsnum" where
  "js_neg (Fin a) = Fin (- a)"
| "js_neg PInf = NInf"
| "js_neg NInf = PInf"
| "js_neg NaN = NaN"

text \<open>The operator \<^verbatim>\<open>+\<close> on numbers.\<close>

fun js_add :: "jsnum \<Rightarrow> jsnum \<Rightarrow> jsnum" where
  "js_add (Fin a) (Fin b) = binary64 (a + b)"
| "js_add NaN y = NaN"
| "js_add x NaN = NaN"
| "js_add PInf NInf = NaN"
| "js_add NInf PInf = NaN"
| "js_add PInf y = PInf"
| "js_add x PInf = PInf"
| "js_add NInf y = NInf"
| "js_add x NInf = NInf"

text \<open>The operator \<^verbatim>\<open>-\<close>: IEEE subtraction adds the negated operand.\<close>

definition js_sub :: "jsnum \<Rightarrow> jsnum \<Rightarrow> jsnum" where
  "js_sub x y = js_add x (js_neg y)"

text \<open>The operator \<^verbatim>\<open>*\<close>: an infinity times zero is NaN.\<close>

fun js_mul :: "jsnum \<Rightarrow> jsnum \<Rightarrow> jsnum" where
  "js_mul (Fin a) (Fin b) = binary64 (a * b)"
| "js_mul NaN y = NaN"
| "js_mul x NaN = NaN"
| "js_mul PInf (Fin b) = (if b = 0 then NaN else if 0 < b then PInf else NInf)"
| "js_mul NInf (Fin b) = (if b = 0 then NaN else if 0 < b then NInf else PInf)"
| "js_mul (Fin a) PInf = (if a = 0 then NaN else if 0 < a then PInf else NInf)"
| "js_mul (Fin a) NInf = (if a = 0 then NaN else if 0 < a then NInf else PInf)"
| "js_mul PInf PInf = PInf"
| "js_mul PInf NInf = NInf"
| "js_mul NInf PInf = NInf"
| "js_mul NInf NInf = PInf"

text \<open>
  The operator \<^verbatim>\<open>/\<close>. A zero divisor is read as the positive zero; the only
  divisor in the component is \<^verbatim>\<open>Math.max(2.0, speed)\<close>, which is never zero.
\<close>

fun js_div :: "jsnum \<Rightarrow> jsnum \<Rightarrow> jsnum" where
  "js_div (Fin a) (Fin b) =
     (if b = 0 then (if a = 0 then NaN else if 0 < a then PInf else NInf)
      else binary64 (a / b))"
| "js_div NaN y = NaN"
| "js_div x NaN = NaN"
| "js_div (Fin a) PInf = Fin 0"
| "js_div (Fin a) NInf = Fin 0"
| "js_div PInf (Fin b) = (if 0 \<le> b then PInf else NInf)"
| "js_div NInf (Fin b) = (if 0 \<le> b then NInf else PInf)"
| "js_div PInf PInf = NaN"
| "js_div PInf NInf = NaN"
| "js_div NInf PInf = NaN"
| "js_div NInf NInf = NaN"

text \<open>\<^verbatim>\<open>Math.max\<close> of two numbers: NaN if either is NaN.\<close>

fun js_max :: "jsnum \<Rightarrow> jsnum \<Rightarrow> jsnum" where
  "js_max (Fin a) (Fin b) = Fin (max a b)"
| "js_max NaN y = NaN"
| "js_max x NaN = NaN"
| "js_max PInf y = PInf"
| "js_max x PInf = PInf"
| "js_max NInf y = y"
| "js_max x NInf = x"

text \<open>
  \<^verbatim>\<open>~~v\<close> is ToInt32 applied twice through bitwise not, that is ToInt32: NaN and
  the infinities give 0; a finite number is truncated toward zero and then reduced
  modulo \<open>2^32\<close> into the signed range.
\<close>

definition js_trunc :: "real \<Rightarrow> int" where
  "js_trunc r = (if 0 \<le> r then \<lfloor>r\<rfloor> else \<lceil>r\<rceil>)"

definition wrap32 :: "int \<Rightarrow> int" where
  "wrap32 k = (k + 2 ^ 31) mod 2 ^ 32 - 2 ^ 31"

fun to_int32 :: "jsnum \<Rightarrow> int" where
  "to_int32 (Fin r) = wrap32 (js_trunc r)"
| "to_int32 PInf = 0"
| "to_int32 NInf = 0"
| "to_int32 NaN = 0"

section \<open>Typed arrays\<close>

text \<open>
  The conversion of a number to binary32, which a store into a \<^verbatim>\<open>Float32Array\<close>
  applies (\<^verbatim>\<open>Math.fround\<close>). A cell of a \<^verbatim>\<open>Float32Array\<close> is a value of this
  conversion: the type \<open>f32\<close>, read back as a number by \<open>val\<close>.
\<close>

fun to_f32 :: "jsnum \<Rightarrow> jsnum" where
  "to_f32 (Fin r) = binary32 r"
| "to_f32 v = v"

typedef f32 = "range to_f32"
  morphisms val Abs_f32
  by blast

setup_lifting type_definition_f32

lift_definition fround :: "jsnum \<Rightarrow> f32" is to_f32
  by blast

text \<open>
  A \<^verbatim>\<open>Float32Array\<close> is a list of cells. A read outside the array yields
  \<^verbatim>\<open>undefined\<close>; every read in the component is an operand of \<^verbatim>\<open>+\<close> or
  \<^verbatim>\<open>-\<close>, where \<^verbatim>\<open>undefined\<close> converts to NaN. A write converts the number to
  binary32; a write outside the array is ignored.
\<close>

definition f32_get :: "f32 list \<Rightarrow> int \<Rightarrow> jsnum" where
  "f32_get a i = (if 0 \<le> i \<and> i < int (length a) then val (a ! nat i) else NaN)"

definition f32_set :: "f32 list \<Rightarrow> int \<Rightarrow> jsnum \<Rightarrow> f32 list" where
  "f32_set a i v = (if 0 \<le> i \<and> i < int (length a) then a[nat i := fround v] else a)"

text \<open>
  The pixel data of an \<^verbatim>\<open>ImageData\<close> is a \<^verbatim>\<open>Uint8ClampedArray\<close>: a list of
  bytes. A read outside the array yields \<^verbatim>\<open>undefined\<close>, which a store into
  another clamped array converts to 0.
\<close>

type_synonym u8 = "8 word"

definition u8_get :: "u8 list \<Rightarrow> int \<Rightarrow> u8" where
  "u8_get d k = (if 0 \<le> k \<and> k < int (length d) then d ! nat k else 0)"

definition u8_set :: "u8 list \<Rightarrow> int \<Rightarrow> u8 \<Rightarrow> u8 list" where
  "u8_set d k v = (if 0 \<le> k \<and> k < int (length d) then d[nat k := v] else d)"

section \<open>The height field\<close>

text \<open>
  \<^verbatim>\<open>rippleData.current\<close> is either null or an object holding references to the
  two arrays. The arrays live in a heap of arrays indexed by address, so that exchanging
  the two references is visibly different from copying elements.
\<close>

type_synonym addr = nat

record ripple_data =
  buffer1 :: addr
  buffer2 :: addr

record state =
  heap :: "addr \<Rightarrow> f32 list"
  rippleData :: "ripple_data option"

datatype error = RangeError

text \<open>
  Lines 43 to 47 of \<^verbatim>\<open>img.onload\<close>, the creation of the height field:
  \<^verbatim>\<open>size = width * height\<close> and two \<^verbatim>\<open>new Float32Array(size)\<close>. The constructor
  throws a RangeError for a negative length and for a length that the engine cannot
  allocate; otherwise the array holds \<open>size\<close> zeros. The largest length the engine grants
  is not in the source and differs between engines: it is the parameter \<open>limit\<close>. The two
  arrays are fresh, at addresses 0 and 1.
\<close>

definition new_Float32Array :: "int \<Rightarrow> int \<Rightarrow> error + f32 list" where
  "new_Float32Array limit n =
     (if n < 0 \<or> limit < n then Inl RangeError else Inr (replicate (nat n) (fround (Fin 0))))"

definition create :: "int \<Rightarrow> int \<Rightarrow> int \<Rightarrow> error + state" where
  "create limit width height =
     (let sz = width * height in
      case new_Float32Array limit sz of
        Inl e \<Rightarrow> Inl e
      | Inr a1 \<Rightarrow>
          (case new_Float32Array limit sz of
             Inl e \<Rightarrow> Inl e
           | Inr a2 \<Rightarrow>
               Inr \<lparr>heap = ((\<lambda>_. [])(0 := a1))(1 := a2),
                    rippleData = Some \<lparr>buffer1 = 0, buffer2 = 1\<rparr>\<rparr>))"

section \<open>The frame function \<^verbatim>\<open>update\<close>\<close>

text \<open>
  Lines 61 to 69: the solver loop, from \<open>i = width\<close> while \<open>i < size - width\<close>.
  It reads the array at \<open>b1\<close> and reads and writes the array at \<open>b2\<close>; the sum of
  the four neighbours associates to the left, as \<^verbatim>\<open>+\<close> does.
\<close>

function step_loop ::
  "int \<Rightarrow> int \<Rightarrow> jsnum \<Rightarrow> jsnum \<Rightarrow> addr \<Rightarrow> addr \<Rightarrow> (addr \<Rightarrow> f32 list) \<Rightarrow> int
   \<Rightarrow> (addr \<Rightarrow> f32 list)" where
  "step_loop width sz s damping b1 b2 h i =
     (if i < sz - width then
        step_loop width sz s damping b1 b2
          (h(b2 := f32_set (h b2) i
             (js_mul
                (js_sub
                   (js_div
                      (js_add
                         (js_add
                            (js_add (f32_get (h b1) (i - 1)) (f32_get (h b1) (i + 1)))
                            (f32_get (h b1) (i - width)))
                         (f32_get (h b1) (i + width)))
                      s)
                   (f32_get (h b2) i))
                damping)))
          (i + 1)
      else h)"
  by pat_completeness auto
termination
  by (relation "measure (\<lambda>(width, sz, s, damping, b1, b2, h, i). nat (sz - width - i))") auto

declare step_loop.simps [simp del]

text \<open>
  Lines 56 to 69: the divisor \<^verbatim>\<open>Math.max(2.0, speed)\<close>, the damping factor
  \<^verbatim>\<open>1 - viscosity\<close>, and the loop.
\<close>

definition step :: "int \<Rightarrow> int \<Rightarrow> jsnum \<Rightarrow> jsnum \<Rightarrow> state \<Rightarrow> state" where
  "step width height viscosity speed st =
     (case rippleData st of
        None \<Rightarrow> st
      | Some rd \<Rightarrow>
          (let sz = width * height;
               s = js_max (Fin 2) speed;
               damping = js_sub (Fin 1) viscosity
           in st\<lparr>heap := step_loop width sz s damping (buffer1 rd) (buffer2 rd) (heap st) width\<rparr>))"

text \<open>
  Lines 71 to 73: the two fields of \<^verbatim>\<open>rippleData.current\<close> are assigned the
  references held by the locals \<^verbatim>\<open>buffer2\<close> and \<^verbatim>\<open>buffer1\<close>. The heap is not
  touched.
\<close>

definition swap :: "state \<Rightarrow> state" where
  "swap st =
     (case rippleData st of
        None \<Rightarrow> st
      | Some rd \<Rightarrow>
          (let b1 = buffer1 rd; b2 = buffer2 rd
           in st\<lparr>rippleData := Some (rd\<lparr>buffer1 := b2, buffer2 := b1\<rparr>)\<rparr>))"

text \<open>Lines 78 and 79: the two offsets of pixel \<open>i\<close>, read from the array \<open>c\<close>.\<close>

definition xOffset :: "f32 list \<Rightarrow> int \<Rightarrow> int" where
  "xOffset c i = to_int32 (js_sub (f32_get c (i - 1)) (f32_get c (i + 1)))"

definition yOffset :: "int \<Rightarrow> f32 list \<Rightarrow> int \<Rightarrow> int" where
  "yOffset width c i = to_int32 (js_sub (f32_get c (i - width)) (f32_get c (i + width)))"

text \<open>Lines 82 and 83: the displaced index and its clamp.\<close>

definition reload :: "int \<Rightarrow> f32 list \<Rightarrow> int \<Rightarrow> int" where
  "reload width c i = i + xOffset c i + yOffset width c i * width"

definition finalIdx :: "int \<Rightarrow> int \<Rightarrow> f32 list \<Rightarrow> int \<Rightarrow> int" where
  "finalIdx width sz c i = max 0 (min (sz - 1) (reload width c i))"

text \<open>Lines 81 to 94: the four stores of pixel \<open>i\<close> into the output data.\<close>

definition put_pixel :: "u8 list \<Rightarrow> int \<Rightarrow> u8 list \<Rightarrow> int \<Rightarrow> u8 list" where
  "put_pixel out i img k =
     u8_set
       (u8_set
          (u8_set
             (u8_set out (i * 4) (u8_get img (k * 4)))
             (i * 4 + 1) (u8_get img (k * 4 + 1)))
          (i * 4 + 2) (u8_get img (k * 4 + 2)))
       (i * 4 + 3) 255"

definition render_pixel :: "int \<Rightarrow> int \<Rightarrow> f32 list \<Rightarrow> u8 list \<Rightarrow> u8 list \<Rightarrow> int \<Rightarrow> u8 list" where
  "render_pixel width sz c img out i =
     (if xOffset c i \<noteq> 0 \<or> yOffset width c i \<noteq> 0
      then put_pixel out i img (finalIdx width sz c i)
      else put_pixel out i img i)"

text \<open>Lines 76 to 95: the render loop, from \<open>i = 0\<close> while \<open>i < size\<close>.\<close>

function render_loop :: "int \<Rightarrow> int \<Rightarrow> f32 list \<Rightarrow> u8 list \<Rightarrow> u8 list \<Rightarrow> int \<Rightarrow> u8 list" where
  "render_loop width sz c img out i =
     (if i < sz then render_loop width sz c img (render_pixel width sz c img out i) (i + 1)
      else out)"
  by pat_completeness auto
termination
  by (relation "measure (\<lambda>(width, sz, c, img, out, i). nat (sz - i))") auto

declare render_loop.simps [simp del]

text \<open>
  Line 75: \<^verbatim>\<open>ctx.createImageData(width, height)\<close> is transparent black, four
  bytes for each of the \<open>|width| * |height|\<close> pixels. (The canvas refuses a zero
  width or height; \<^verbatim>\<open>update\<close> only runs after \<^verbatim>\<open>getImageData\<close> accepted
  the same dimensions.)
\<close>

definition createImageData :: "int \<Rightarrow> int \<Rightarrow> u8 list" where
  "createImageData width height = replicate (nat (4 * (\<bar>width\<bar> * \<bar>height\<bar>))) 0"

definition render :: "int \<Rightarrow> int \<Rightarrow> f32 list \<Rightarrow> u8 list \<Rightarrow> u8 list" where
  "render width height c img =
     render_loop width (width * height) c img (createImageData width height) 0"

text \<open>
  Lines 52 to 96: one frame. The locals \<^verbatim>\<open>buffer1\<close> and \<^verbatim>\<open>buffer2\<close> are
  bound before the solver loop, so the render pass reads the array that was
  \<^verbatim>\<open>buffer1\<close> when the frame began, whichever role it has after the swap. The
  result is the new state and the image handed to \<^verbatim>\<open>putImageData\<close>, if any.
\<close>

definition update :: "int \<Rightarrow> int \<Rightarrow> jsnum \<Rightarrow> jsnum \<Rightarrow> u8 list \<Rightarrow> state \<Rightarrow> state \<times> u8 list option" where
  "update width height viscosity speed imgData st =
     (case rippleData st of
        None \<Rightarrow> (st, None)
      | Some rd \<Rightarrow>
          (let st' = swap (step width height viscosity speed st);
               output = render width height (heap st' (buffer1 rd)) imgData
           in (st', Some output)))"

section \<open>The pointer handler \<^verbatim>\<open>handleMouseMove\<close>\<close>

text \<open>
  Lines 121 to 125: the inner loop over \<open>k\<close>, and lines 120 to 126: the outer loop
  over \<open>j\<close>. Both run on the array that the local \<^verbatim>\<open>buffer1\<close> refers to.
\<close>

function inject_row ::
  "int \<Rightarrow> int \<Rightarrow> jsnum \<Rightarrow> int \<Rightarrow> int \<Rightarrow> f32 list \<Rightarrow> int \<Rightarrow> f32 list" where
  "inject_row width height strength j kend a k =
     (if k < kend then
        inject_row width height strength j kend
          (if 0 \<le> j \<and> j < height \<and> 0 \<le> k \<and> k < width
           then f32_set a (j * width + k) strength else a)
          (k + 1)
      else a)"
  by pat_completeness auto
termination
  by (relation "measure (\<lambda>(width, height, strength, j, kend, a, k). nat (kend - k))") auto

declare inject_row.simps [simp del]

function inject_rows ::
  "int \<Rightarrow> int \<Rightarrow> jsnum \<Rightarrow> int \<Rightarrow> int \<Rightarrow> int \<Rightarrow> f32 list \<Rightarrow> int \<Rightarrow> f32 list" where
  "inject_rows width height strength x rippleSize jend a j =
     (if j < jend then
        inject_rows width height strength x rippleSize jend
          (inject_row width height strength j (x + rippleSize) a (x - rippleSize))
          (j + 1)
      else a)"
  by pat_completeness auto
termination
  by (relation "measure (\<lambda>(width, height, strength, x, rippleSize, jend, a, j). nat (jend - j))") auto

declare inject_rows.simps [simp del]

text \<open>
  Lines 103 to 127, with the pointer position already scaled and truncated to the
  integers \<open>x\<close> and \<open>y\<close> (lines 108 to 115 read the event and the layout).
\<close>

definition handleMouseMove :: "int \<Rightarrow> int \<Rightarrow> int \<Rightarrow> jsnum \<Rightarrow> int \<Rightarrow> int \<Rightarrow> state \<Rightarrow> state" where
  "handleMouseMove width height rippleSize strength x y st =
     (case rippleData st of
        None \<Rightarrow> st
      | Some rd \<Rightarrow>
          st\<lparr>heap := (heap st)
            (buffer1 rd :=
               inject_rows width height strength x rippleSize (y + rippleSize)
                 (heap st (buffer1 rd)) (y - rippleSize))\<rparr>)"

section \<open>Notions used in the statements\<close>

text \<open>
  The value the solver loop stores at index \<open>i\<close>, from the array \<open>c\<close> it reads and
  the array \<open>n\<close> it overwrites: the right-hand side of the assignment on lines 63 to 68.
\<close>

definition wave_value :: "int \<Rightarrow> jsnum \<Rightarrow> jsnum \<Rightarrow> f32 list \<Rightarrow> f32 list \<Rightarrow> int \<Rightarrow> jsnum" where
  "wave_value width s damping c n i =
     js_mul
       (js_sub
          (js_div
             (js_add
                (js_add
                   (js_add (f32_get c (i - 1)) (f32_get c (i + 1)))
                   (f32_get c (i - width)))
                (f32_get c (i + width)))
             s)
          (f32_get n i))
       damping"

text \<open>
  The source pixel whose colour the render pass stores at pixel \<open>i\<close>: the clamped
  displaced index when an offset is not zero, \<open>i\<close> itself otherwise (lines 81 to 94).
\<close>

definition sample_index :: "int \<Rightarrow> int \<Rightarrow> f32 list \<Rightarrow> int \<Rightarrow> int" where
  "sample_index width sz c i =
     (if xOffset c i \<noteq> 0 \<or> yOffset width c i \<noteq> 0 then finalIdx width sz c i else i)"

text \<open>
  Row \<open>j\<close> of the disturbance loop writes index \<open>idx\<close>: the row passes the guard
  of line 122 and \<open>idx - j * width\<close> is a column that the inner loop visits and that
  passes the guard.
\<close>

definition hit :: "int \<Rightarrow> int \<Rightarrow> int \<Rightarrow> int \<Rightarrow> int \<Rightarrow> int \<Rightarrow> bool" where
  "hit width height x rippleSize j idx \<longleftrightarrow>
     0 \<le> j \<and> j < height \<and> x - rippleSize \<le> idx - j * width \<and> idx - j * width < x + rippleSize
     \<and> 0 \<le> idx - j * width \<and> idx - j * width < width"

text \<open>
  The invariant of the height field, for given dimensions: the two references are set and
  differ, and each array holds \<open>width * height\<close> cells.
\<close>

definition field_ok :: "int \<Rightarrow> int \<Rightarrow> state \<Rightarrow> bool" where
  "field_ok width height st =
     (case rippleData st of
        None \<Rightarrow> False
      | Some rd \<Rightarrow>
          buffer1 rd \<noteq> buffer2 rd
          \<and> length (heap st (buffer1 rd)) = nat (width * height)
          \<and> length (heap st (buffer2 rd)) = nat (width * height))"

text \<open>A number that is neither NaN nor an infinity.\<close>

fun is_finite :: "jsnum \<Rightarrow> bool" where
  "is_finite (Fin r) = True"
| "is_finite x = False"

text \<open>\<^verbatim>\<open>Math.abs\<close> and the operator \<^verbatim>\<open><=\<close>, which is false when an operand is NaN.\<close>

fun js_abs :: "jsnum \<Rightarrow> jsnum" where
  "js_abs (Fin r) = Fin \<bar>r\<bar>"
| "js_abs PInf = PInf"
| "js_abs NInf = PInf"
| "js_abs NaN = NaN"

fun js_le :: "jsnum \<Rightarrow> jsnum \<Rightarrow> bool" where
  "js_le (Fin a) (Fin b) = (a \<le> b)"
| "js_le NaN y = False"
| "js_le x NaN = False"
| "js_le NInf y = True"
| "js_le x PInf = True"
| "js_le PInf y = False"
| "js_le x NInf = False"

text \<open>The sum over all cells of an array of the absolute amplitudes.\<close>

primrec amplitude_sum :: "f32 list \<Rightarrow> jsnum" where
  "amplitude_sum [] = Fin 0"
| "amplitude_sum (c # cs) = js_add (js_abs (val c)) (amplitude_sum cs)"

text \<open>
  The state after one frame, and the sum over the array that \<^verbatim>\<open>buffer1\<close> refers to
  (the current buffer).
\<close>

definition frame :: "int \<Rightarrow> int \<Rightarrow> jsnum \<Rightarrow> jsnum \<Rightarrow> u8 list \<Rightarrow> state \<Rightarrow> state" where
  "frame width height viscosity speed imgData st = fst (update width height viscosity speed imgData st)"

definition current_sum :: "state \<Rightarrow> jsnum" where
  "current_sum st =
     (case rippleData st of None \<Rightarrow> Fin 0 | Some rd \<Rightarrow> amplitude_sum (heap st (buffer1 rd)))"

section \<open>Example inputs\<close>

text \<open>
  The state right after \<^verbatim>\<open>img.onload\<close> allocated a field of 3 by 3 cells, and the
  same field after the pointer moved to \<open>(1, 1)\<close> with \<open>rippleSize = 1\<close> and
  \<open>strength = 512\<close>.
\<close>

definition fresh33 :: state where
  "fresh33 =
     \<lparr>heap = ((\<lambda>_. [])(0 := replicate 9 (fround (Fin 0))))(1 := replicate 9 (fround (Fin 0))),
      rippleData = Some \<lparr>buffer1 = 0, buffer2 = 1\<rparr>\<rparr>"

definition poked33 :: state where
  "poked33 =
     \<lparr>heap = ((\<lambda>_. [])
        (0 := map fround
                [Fin 512, Fin 512, Fin 0, Fin 512, Fin 512, Fin 0, Fin 0, Fin 0, Fin 0]))
        (1 := replicate 9 (fround (Fin 0))),
      rippleData = Some \<lparr>buffer1 = 0, buffer2 = 1\<rparr>\<rparr>"

text \<open>
  The 3 by 3 field after three pointer moves with \<open>rippleSize = 1\<close>: to \<open>(2, 0)\<close>
  with strength 3, to \<open>(0, 0)\<close> with strength 0.5 and to \<open>(0, 2)\<close> with strength
  \<open>2^-60\<close>.
\<close>

definition graded33 :: state where
  "graded33 =
     \<lparr>heap = ((\<lambda>_. [])
        (0 := map fround
                [Fin (1 / 2), Fin 3, Fin 3, Fin (1 / 1152921504606846976), Fin 0, Fin 0,
                 Fin (1 / 1152921504606846976), Fin 0, Fin 0]))
        (1 := replicate 9 (fround (Fin 0))),
      rippleData = Some \<lparr>buffer1 = 0, buffer2 = 1\<rparr>\<rparr>"

text \<open>A source image of 3 by 3 pixels; pixel \<open>p\<close> holds the bytes \<open>4p\<close> to \<open>4p + 3\<close>.\<close>

definition image33 :: "u8 list" where
  "image33 =
     [0, 1, 2, 3, 4, 5, 6, 7, 8, 9, 10, 11, 12, 13, 14, 15, 16, 17,
      18, 19, 20, 21, 22, 23, 24, 25, 26, 27, 28, 29, 30, 31, 32, 33, 34, 35]"

text \<open>
  A field of 1 by 3 cells with given contents of the arrays at addresses 0 and 1; the flag
  says whether the two references have been exchanged. \<open>poked13\<close> is that field after
  \<^verbatim>\<open>img.onload\<close> and one pointer move to \<open>(0, 1)\<close> with \<open>rippleSize = 1\<close> and
  \<open>strength = 512\<close>; \<open>undamped13\<close> is one frame on it with viscosity 0 and speed 2.
\<close>

definition column13 :: "f32 list \<Rightarrow> f32 list \<Rightarrow> bool \<Rightarrow> state" where
  "column13 a0 a1 swapped =
     \<lparr>heap = ((\<lambda>_. [])(0 := a0))(1 := a1),
      rippleData =
        Some (if swapped then \<lparr>buffer1 = 1, buffer2 = 0\<rparr> else \<lparr>buffer1 = 0, buffer2 = 1\<rparr>)\<rparr>"

definition undamped13 :: "state \<Rightarrow> state" where
  "undamped13 = frame 1 3 (Fin 0) (Fin 2) (replicate 12 0)"

definition poked13 :: state where
  "poked13 =
     column13 (map fround [Fin 512, Fin 512, Fin 0]) (map fround [Fin 0, Fin 0, Fin 0]) False"

section \<open>Facts about rounding\<close>

text \<open>The exponent that \<open>ilog2\<close> computes is the exponent of the binade.\<close>

lemma ilog2_bounds:
  assumes "0 < x"
  shows "2 powi (ilog2 x) \<le> x" and "x < 2 powi (ilog2 x + 1)"
proof -
  have both: "2 powi (ilog2 x) \<le> x \<and> x < 2 powi (ilog2 x + 1)"
  proof (cases "1 \<le> x")
    case True
    define n where "n = \<lfloor>x\<rfloor>"
    have n: "0 < n" using True by (simp add: n_def)
    have e: "ilog2 x = bitlen n - 1" using True by (simp add: ilog2_def n_def)
    have b1: "1 \<le> bitlen n" using n by (simp add: bitlen_alt_def)
    from bitlen_bounds [OF n]
    have lo: "(2::int) ^ nat (bitlen n - 1) \<le> n" and hi: "n < 2 ^ nat (bitlen n)" by simp_all
    have "(2::real) ^ nat (bitlen n - 1) \<le> of_int n"
      using lo by (metis of_int_le_iff of_int_numeral of_int_power)
    also have "\<dots> \<le> x" by (simp add: n_def)
    finally have l: "2 powi (ilog2 x) \<le> x"
      using b1 by (simp add: e power_int_def)
    have "n + 1 \<le> 2 ^ nat (bitlen n)" using hi by simp
    then have "of_int (n + 1) \<le> (2::real) ^ nat (bitlen n)"
      by (metis of_int_le_iff of_int_numeral of_int_power)
    moreover have "x < of_int (n + 1)" by (simp add: n_def)
    ultimately have "x < 2 ^ nat (bitlen n)" by linarith
    then have h: "x < 2 powi (ilog2 x + 1)"
      using b1 by (simp add: e power_int_def)
    from l h show ?thesis ..
  next
    case False
    define z where "z = 1 / x"
    define n where "n = \<lfloor>z\<rfloor>"
    define k where "k = bitlen n - 1"
    have z: "1 < z" using False assms by (simp add: z_def)
    have n: "0 < n" using z by (simp add: n_def)
    have b1: "0 \<le> k" using n by (simp add: bitlen_alt_def k_def)
    from bitlen_bounds [OF n]
    have lo: "(2::int) ^ nat k \<le> n" and hi: "n < 2 ^ nat (k + 1)" by (simp_all add: k_def)
    have "(2::real) ^ nat k \<le> of_int n"
      using lo by (metis of_int_le_iff of_int_numeral of_int_power)
    also have "\<dots> \<le> z" by (simp add: n_def)
    finally have zl: "2 ^ nat k \<le> z" .
    have "n + 1 \<le> 2 ^ nat (k + 1)" using hi by simp
    then have "of_int (n + 1) \<le> (2::real) ^ nat (k + 1)"
      by (metis of_int_le_iff of_int_numeral of_int_power)
    moreover have "z < of_int (n + 1)" by (simp add: n_def)
    ultimately have zh: "z < 2 ^ nat (k + 1)" by linarith
    have xu: "x * 2 ^ nat k \<le> 1"
      using zl assms by (simp add: z_def field_simps)
    have xl: "1 < x * 2 ^ nat (k + 1)"
      using zh assms by (simp add: z_def field_simps)
    have pk: "2 powi (- k) = 1 / (2::real) ^ nat k"
      using b1 by (simp add: power_int_def field_simps)
    have pk1: "2 powi (- k - 1) = 1 / (2::real) ^ nat (k + 1)"
      using b1 by (simp add: power_int_def field_simps nat_add_distrib)
    have "(2::real) powi (1 - k) = 2 powi 1 / 2 powi k"
      by (simp add: power_int_diff)
    also have "\<dots> = 2 / 2 ^ nat k"
      using b1 by (simp add: power_int_def)
    finally have pk2: "2 powi (- k + 1) = 2 / (2::real) ^ nat k"
      by simp
    show ?thesis
    proof (cases "x * 2 ^ nat k = 1")
      case True
      have e: "ilog2 x = - k" using False True by (simp add: ilog2_def Let_def k_def n_def z_def)
      have "x = 1 / 2 ^ nat k" using True by (simp add: field_simps)
      moreover have "1 / (2::real) ^ nat k < 2 / 2 ^ nat k"
        by (simp add: divide_strict_right_mono)
      ultimately show ?thesis unfolding e pk pk2 by simp
    next
      case ne: False
      have e: "ilog2 x = - k - 1" using False ne by (simp add: ilog2_def Let_def k_def n_def z_def)
      have "x * 2 ^ nat k < 1" using xu ne by linarith
      then have a: "x < 1 / 2 ^ nat k" by (simp add: field_simps)
      have b: "1 / 2 ^ nat (k + 1) < x" using xl by (simp add: field_simps)
      have "- k - 1 + 1 = - k" by simp
      then show ?thesis unfolding e using a b pk pk1 by simp
    qed
  qed
  from both show "2 powi (ilog2 x) \<le> x" and "x < 2 powi (ilog2 x + 1)" by simp_all
qed

text \<open>Rounding to the nearest integer does not pass an integer bound.\<close>

lemma round_even_le: "m \<le> of_int n \<Longrightarrow> round_even m \<le> n"
  unfolding round_even_def Let_def
  by (auto simp: floor_le_iff)

lemma round_even_ge: "of_int n \<le> m \<Longrightarrow> n \<le> round_even m"
proof -
  assume "of_int n \<le> m"
  then have "n \<le> \<lfloor>m\<rfloor>" by (simp add: le_floor_iff)
  moreover have "\<lfloor>m\<rfloor> \<le> round_even m"
    unfolding round_even_def Let_def by simp
  ultimately show ?thesis by linarith
qed

lemma round_even_abs_le: "\<bar>m\<bar> \<le> of_int n \<Longrightarrow> \<bar>round_even m\<bar> \<le> n"
  using round_even_le [of m n] round_even_ge [of "- n" m] by (simp add: abs_le_iff)


text \<open>
  Rounding does not pass a bound that is itself a number of the format: if
  \<open>|x| \<le> B\<close> and \<open>B = k * 2^j\<close> with \<open>k\<close> of at most \<open>p\<close> bits and \<open>j\<close> not below the
  smallest exponent, the rounded value is finite and at most \<open>B\<close> in magnitude.
\<close>

lemma powi_nonneg_int: "0 \<le> d \<Longrightarrow> (2::real) powi d = of_int (2 ^ nat d)"
  by (simp add: power_int_def)

lemma round_to_le:
  assumes x: "\<bar>x\<bar> \<le> B"
    and B: "B = of_int k * 2 powi j"
    and k: "0 \<le> k" "k \<le> 2 ^ nat p"
    and j: "emin - p + 1 \<le> j"
    and top: "B < 2 powi (emax + 1)"
    and p: "1 \<le> p"
  shows "\<exists>y. round_to p emin emax x = Fin y \<and> \<bar>y\<bar> \<le> B"
proof (cases "x = 0")
  case True
  with x show ?thesis by (simp add: round_to_def)
next
  case False
  define e where "e = max (ilog2 \<bar>x\<bar>) emin"
  define q :: real where "q = 2 powi (e - p + 1)"
  define n where "n = round_even (x / q)"
  define y where "y = of_int n * q"
  have q: "0 < q" by (simp add: q_def zero_less_power_int)
  have ax: "0 < \<bar>x\<bar>" using False by simp
  have "\<exists>N. B = of_int N * q"
  proof (cases "e - p + 1 \<le> j")
    case True
    define d where "d = j - (e - p + 1)"
    have d: "0 \<le> d" using True by (simp add: d_def)
    have "j = (e - p + 1) + d" by (simp add: d_def)
    then have "(2::real) powi j = 2 powi (e - p + 1) * 2 powi d"
      by (simp add: power_int_add)
    then have "B = of_int (k * 2 ^ nat d) * q"
      using d by (simp add: B q_def powi_nonneg_int)
    then show ?thesis by blast
  next
    case lt: False
    then have "emin < e" using j by linarith
    then have e: "e = ilog2 \<bar>x\<bar>" by (simp add: e_def max_def split: if_splits)
    have lo: "2 powi e \<le> \<bar>x\<bar>" unfolding e by (rule ilog2_bounds(1) [OF ax])
    have "of_int k \<le> (2::real) ^ nat p"
      using k(2) by (metis of_int_le_iff of_int_numeral of_int_power)
    then have "B \<le> 2 ^ nat p * 2 powi j"
      unfolding B by (intro mult_right_mono) simp_all
    also have "\<dots> = 2 powi p * 2 powi j"
      using p by (simp add: power_int_def)
    also have "\<dots> = 2 powi (p + j)"
      by (simp add: power_int_add)
    also have "\<dots> \<le> 2 powi e"
      using lt by (intro power_int_increasing) simp_all
    finally have "B \<le> 2 powi e" .
    with lo x have Be: "B = 2 powi e" by linarith
    have "e = (e - p + 1) + (p - 1)" by simp
    then have "(2::real) powi e = 2 powi (e - p + 1) * 2 powi (p - 1)"
      by (metis power_int_add zero_neq_numeral)
    then have "B = of_int (2 ^ nat (p - 1)) * q"
      using p by (simp add: Be q_def powi_nonneg_int)
    then show ?thesis by blast
  qed
  then obtain N where N: "B = of_int N * q" by blast
  have "\<bar>x / q\<bar> = \<bar>x\<bar> / q" using q by simp
  also have "\<dots> \<le> B / q" using x q by (simp add: divide_right_mono)
  also have "\<dots> = of_int N" using q by (simp add: N)
  finally have "\<bar>n\<bar> \<le> N" unfolding n_def by (rule round_even_abs_le)
  then have "\<bar>of_int n :: real\<bar> \<le> of_int N"
    by (metis of_int_abs of_int_le_iff)
  then have "\<bar>of_int n\<bar> * q \<le> of_int N * q"
    using q by (intro mult_right_mono) simp_all
  then have y: "\<bar>y\<bar> \<le> B"
    using q by (simp add: y_def N abs_mult)
  with top have "\<not> 2 powi (emax + 1) \<le> \<bar>y\<bar>" by linarith
  then have "round_to p emin emax x = Fin y"
    using False by (simp add: round_to_def Let_def e_def q_def n_def y_def)
  with y show ?thesis by blast
qed

lemma binary64_le:
  assumes "\<bar>x\<bar> \<le> of_int k * 2 powi j" "0 \<le> k" "k \<le> 2 ^ 53" "- 1074 \<le> j"
    "real_of_int k * 2 powi j < 2 powi 1024"
  shows "\<exists>y. binary64 x = Fin y \<and> \<bar>y\<bar> \<le> of_int k * 2 powi j"
  unfolding binary64_def using assms
  by (intro round_to_le [where k = k and j = j]) simp_all

lemma binary32_le:
  assumes "\<bar>x\<bar> \<le> of_int k * 2 powi j" "0 \<le> k" "k \<le> 2 ^ 24" "- 149 \<le> j"
    "real_of_int k * 2 powi j < 2 powi 128"
  shows "\<exists>y. binary32 x = Fin y \<and> \<bar>y\<bar> \<le> of_int k * 2 powi j"
  unfolding binary32_def using assms
  by (intro round_to_le [where k = k and j = j]) simp_all

text \<open>A finite cell of a \<^verbatim>\<open>Float32Array\<close> is below \<open>2^128\<close> in magnitude.\<close>

lemma binary32_bound: "binary32 x = Fin y \<Longrightarrow> \<bar>y\<bar> < 2 powi 128"
  unfolding binary32_def round_to_def Let_def
  by (auto split: if_splits simp: zero_less_power_int)

lemma val_cases: "\<exists>x. val c = to_f32 x"
  using val [of c] by auto

lemma val_bound: "val c = Fin r \<Longrightarrow> \<bar>r\<bar> < 2 powi 128"
proof -
  assume a: "val c = Fin r"
  obtain x where x: "val c = to_f32 x" using val_cases by blast
  show ?thesis
  proof (cases x)
    case (Fin s)
    with a x have "binary32 s = Fin r" by simp
    then show ?thesis by (rule binary32_bound)
  qed (use a x in simp_all)
qed

text \<open>The exponent is determined by the binade.\<close>

lemma ilog2_unique:
  assumes "0 < x" "2 powi e \<le> x" "x < 2 powi (e + 1)"
  shows "ilog2 x = e"
proof -
  note b = ilog2_bounds [OF assms(1)]
  have "\<not> ilog2 x < e"
  proof
    assume "ilog2 x < e"
    then have "(2::real) powi (ilog2 x + 1) \<le> 2 powi e"
      by (intro power_int_increasing) simp_all
    with b(2) assms(2) show False by linarith
  qed
  moreover have "\<not> e < ilog2 x"
  proof
    assume "e < ilog2 x"
    then have "(2::real) powi (e + 1) \<le> 2 powi (ilog2 x)"
      by (intro power_int_increasing) simp_all
    with b(1) assms(3) show False by linarith
  qed
  ultimately show ?thesis by linarith
qed

lemma round_even_of_int [simp]: "round_even (of_int n) = n"
  by (simp add: round_even_def)

text \<open>
  Evaluation with the exponent given: for \<open>2^e \<le> |x| < 2^(e+1)\<close> inside the normal
  range, the rounded value is \<open>x\<close> rounded to a multiple of \<open>2^(e - p + 1)\<close>.
\<close>

lemma round_to_at:
  assumes "2 powi e \<le> \<bar>x\<bar>" "\<bar>x\<bar> < 2 powi (e + 1)" "emin \<le> e" "e < emax" "1 \<le> p"
  shows "round_to p emin emax x =
    Fin (of_int (round_even (x / 2 powi (e - p + 1))) * 2 powi (e - p + 1))"
proof -
  have pos: "0 < \<bar>x\<bar>"
    using assms(1) zero_less_power_int [of "2::real" e] by linarith
  then have nz: "x \<noteq> 0" by simp
  have e: "max (ilog2 \<bar>x\<bar>) emin = e"
    using ilog2_unique [OF pos assms(1,2)] assms(3) by simp
  have "\<bar>x\<bar> \<le> of_int 1 * 2 powi (e + 1)" using assms(2) by simp
  moreover have "(1::int) \<le> 2 ^ nat p" by simp
  moreover have "emin - p + 1 \<le> e + 1" using assms(3,5) by simp
  moreover have "real_of_int 1 * 2 powi (e + 1) < 2 powi (emax + 1)"
    using assms(4) by (simp add: power_int_strict_increasing)
  ultimately obtain y where y: "round_to p emin emax x = Fin y"
    using round_to_le [of x "of_int 1 * 2 powi (e + 1)" 1 "e + 1" p emin emax] assms(5)
    by auto
  then show ?thesis
    using nz by (simp add: round_to_def Let_def e split: if_splits)
qed

lemma round_to_int:
  assumes "\<bar>n\<bar> < 2 ^ nat p" "emin \<le> 0" "p \<le> emax" "1 \<le> p"
  shows "round_to p emin emax (of_int n) = Fin (of_int n)"
proof (cases "n = 0")
  case True
  then show ?thesis by (simp add: round_to_def)
next
  case False
  define x :: real where "x = of_int n"
  define e where "e = ilog2 \<bar>x\<bar>"
  have x1: "1 \<le> \<bar>x\<bar>" using False by (simp add: x_def flip: of_int_abs)
  then have pos: "0 < \<bar>x\<bar>" by linarith
  note b = ilog2_bounds [OF pos, folded e_def]
  have e0: "0 \<le> e"
  proof (rule ccontr)
    assume "\<not> 0 \<le> e"
    then have "(2::real) powi (e + 1) \<le> 2 powi 0"
      by (intro power_int_increasing) simp_all
    with b(2) x1 show False by simp
  qed
  have "\<bar>x\<bar> < 2 ^ nat p"
    using assms(1) unfolding x_def
    by (metis of_int_abs of_int_less_iff of_int_numeral of_int_power)
  then have xp: "\<bar>x\<bar> < 2 powi p" using assms(4) by (simp add: power_int_def)
  have ep: "e < p"
  proof (rule ccontr)
    assume "\<not> e < p"
    then have "(2::real) powi p \<le> 2 powi e"
      by (intro power_int_increasing) simp_all
    with b(1) xp show False by linarith
  qed
  define d where "d = p - 1 - e"
  have d: "0 \<le> d" using ep by (simp add: d_def)
  have q: "(2::real) powi (e - p + 1) = 1 / of_int (2 ^ nat d)"
  proof -
    have "e - p + 1 = - d" by (simp add: d_def)
    then have "(2::real) powi (e - p + 1) = inverse (2 powi d)"
      by (simp only: power_int_minus)
    also have "\<dots> = 1 / of_int (2 ^ nat d)"
      using d by (simp only: powi_nonneg_int inverse_eq_divide)
    finally show ?thesis .
  qed
  have "x / 2 powi (e - p + 1) = of_int (n * 2 ^ nat d)"
    by (simp add: q x_def)
  then have r: "round_even (x / 2 powi (e - p + 1)) = n * 2 ^ nat d"
    by (simp only: round_even_of_int)
  have "round_to p emin emax x =
    Fin (of_int (round_even (x / 2 powi (e - p + 1))) * 2 powi (e - p + 1))"
    using b e0 ep assms by (intro round_to_at) simp_all
  also have "\<dots> = Fin (of_int (n * 2 ^ nat d) * (1 / of_int (2 ^ nat d)))"
    by (simp only: r, simp only: q)
  also have "\<dots> = Fin x"
    by (simp add: x_def)
  finally show ?thesis by (simp add: x_def)
qed

lemma binary64_numeral [simp]:
  "numeral w < (2::int) ^ 53 \<Longrightarrow> binary64 (numeral w) = Fin (numeral w)"
  "numeral w < (2::int) ^ 53 \<Longrightarrow> binary64 (- numeral w) = Fin (- numeral w)"
  using round_to_int [of "numeral w" 53 "- 1022" 1023]
    round_to_int [of "- numeral w" 53 "- 1022" 1023]
  by (simp_all add: binary64_def)

lemma binary32_numeral [simp]:
  "numeral w < (2::int) ^ 24 \<Longrightarrow> binary32 (numeral w) = Fin (numeral w)"
  "numeral w < (2::int) ^ 24 \<Longrightarrow> binary32 (- numeral w) = Fin (- numeral w)"
  using round_to_int [of "numeral w" 24 "- 126" 127]
    round_to_int [of "- numeral w" 24 "- 126" 127]
  by (simp_all add: binary32_def)

lemma binary64_one [simp]: "binary64 1 = Fin 1"
  using round_to_int [of 1 53 "- 1022" 1023] by (simp add: binary64_def)

lemma binary32_one [simp]: "binary32 1 = Fin 1"
  using round_to_int [of 1 24 "- 126" 127] by (simp add: binary32_def)

lemma round_even_numeral [simp]:
  "round_even (numeral w) = numeral w"
  "round_even (- numeral w) = - numeral w"
  using round_even_of_int [of "numeral w"] round_even_of_int [of "- numeral w"]
  by simp_all

text \<open>
  The same with natural exponents, in the three shapes a concrete number can have: at
  least 1 and below \<open>2^(p-1)\<close>, below 1, and \<open>2^(p-1)\<close> or more.
\<close>

lemma round_to_pos:
  fixes e :: nat
  assumes "2 ^ e \<le> \<bar>x\<bar>" "\<bar>x\<bar> < 2 * 2 ^ e" "int e < p" "int e < emax" "emin \<le> 0" "1 \<le> p"
  shows "round_to p emin emax x =
    Fin (of_int (round_even (x * 2 ^ nat (p - 1 - int e))) / 2 ^ nat (p - 1 - int e))"
proof -
  have a: "(2::real) powi int e = 2 ^ e" by simp
  have b: "(2::real) powi (int e + 1) = 2 * 2 ^ e" by (simp add: power_int_add)
  have "int e - p + 1 = - (p - 1 - int e)" by simp
  then have "(2::real) powi (int e - p + 1) = inverse (2 powi (p - 1 - int e))"
    by (simp only: power_int_minus)
  also have "\<dots> = inverse (2 ^ nat (p - 1 - int e))"
    using assms(3) by (simp add: power_int_def)
  finally have q: "(2::real) powi (int e - p + 1) = inverse (2 ^ nat (p - 1 - int e))" .
  have "round_to p emin emax x =
    Fin (of_int (round_even (x / 2 powi (int e - p + 1))) * 2 powi (int e - p + 1))"
    using assms by (intro round_to_at) (simp_all add: a b)
  then show ?thesis
    unfolding q by (simp add: field_simps)
qed

lemma round_to_neg:
  fixes m :: nat
  assumes "1 \<le> \<bar>x\<bar> * 2 ^ m" "\<bar>x\<bar> * 2 ^ m < 2" "emin \<le> - int m" "0 < emax" "1 \<le> p"
  shows "round_to p emin emax x =
    Fin (of_int (round_even (x * 2 ^ (nat (p - 1) + m))) / 2 ^ (nat (p - 1) + m))"
proof -
  have a: "(2::real) powi (- int m) = inverse (2 ^ m)"
    by (simp add: power_int_minus)
  have "(2::real) powi (- int m + 1) = 2 powi (- int m) * 2 powi 1"
    by (rule power_int_add) simp
  then have b: "(2::real) powi (- int m + 1) = 2 * inverse (2 ^ m)"
    by (simp only: a) simp
  have "1 - int m = - int m + 1" by simp
  then have b': "(2::real) powi (1 - int m) = 2 * inverse (2 ^ m)"
    by (simp only: b)
  have "- int m - p + 1 = - (p - 1 + int m)" by simp
  then have "(2::real) powi (- int m - p + 1) = inverse (2 powi (p - 1 + int m))"
    by (simp only: power_int_minus)
  also have "2 powi (p - 1 + int m) = (2::real) ^ (nat (p - 1) + m)"
    using assms(5) by (simp add: power_int_def nat_add_distrib)
  finally have q: "(2::real) powi (- int m - p + 1) = inverse (2 ^ (nat (p - 1) + m))" .
  have "round_to p emin emax x =
    Fin (of_int (round_even (x / 2 powi (- int m - p + 1))) * 2 powi (- int m - p + 1))"
    using assms by (intro round_to_at) (simp_all add: a b b' field_simps)
  then show ?thesis
    unfolding q by (simp add: field_simps)
qed

lemma round_to_big:
  fixes e :: nat
  assumes "2 ^ e \<le> \<bar>x\<bar>" "\<bar>x\<bar> < 2 * 2 ^ e" "p - 1 \<le> int e" "int e < emax" "emin \<le> 0" "1 \<le> p"
  shows "round_to p emin emax x =
    Fin (of_int (round_even (x / 2 ^ nat (int e - p + 1))) * 2 ^ nat (int e - p + 1))"
proof -
  have a: "(2::real) powi int e = 2 ^ e" by simp
  have b: "(2::real) powi (int e + 1) = 2 * 2 ^ e" by (simp add: power_int_add)
  have q: "(2::real) powi (int e - p + 1) = 2 ^ nat (int e - p + 1)"
    using assms(3) by (simp add: power_int_def)
  have "round_to p emin emax x =
    Fin (of_int (round_even (x / 2 powi (int e - p + 1))) * 2 powi (int e - p + 1))"
    using assms by (intro round_to_at) (simp_all add: a b)
  then show ?thesis
    unfolding q .
qed

section \<open>Cells and arrays\<close>

lemma val_fround [simp]: "val (fround v) = to_f32 v"
  by (rule fround.rep_eq)

lemma binary32_zero [simp]: "binary32 0 = Fin 0"
  by (simp add: binary32_def round_to_def)

lemma binary64_zero [simp]: "binary64 0 = Fin 0"
  by (simp add: binary64_def round_to_def)

lemma length_f32_set [simp]: "length (f32_set a i v) = length a"
  by (simp add: f32_set_def)

lemma f32_get_set:
  "f32_get (f32_set a i v) j =
     (if j = i \<and> 0 \<le> i \<and> i < int (length a) then to_f32 v else f32_get a j)"
  by (auto simp: f32_get_def f32_set_def nth_list_update)

lemma f32_get_below [simp]: "i < 0 \<Longrightarrow> f32_get a i = NaN"
  by (simp add: f32_get_def)

lemma f32_get_above [simp]: "int (length a) \<le> i \<Longrightarrow> f32_get a i = NaN"
  by (simp add: f32_get_def)

lemma js_sub_NaN_left [simp]: "js_sub NaN v = NaN"
  by (simp add: js_sub_def)

lemma js_sub_NaN_right [simp]: "js_sub v NaN = NaN"
  by (cases v) (simp_all add: js_sub_def)

section \<open>Allocation\<close>

text \<open>
  C5, as the code has it. The creation has no dimension check of its own: its only
  failure is the RangeError of the typed-array constructor, for a negative product or a
  product above the largest length \<open>limit\<close> that the engine grants. Every other
  product, zero included, yields two arrays of that many zeros at two distinct
  addresses. A product of zero succeeds whatever the limit is.
\<close>

theorem create_allocates:
  assumes "0 \<le> limit"
  shows "(width * height < 0 \<or> limit < width * height \<longrightarrow>
      create limit width height = Inl RangeError)
   \<and> (0 \<le> width * height \<and> width * height \<le> limit \<longrightarrow>
      (\<exists>st rd. create limit width height = Inr st \<and> rippleData st = Some rd
         \<and> buffer1 rd \<noteq> buffer2 rd
         \<and> map val (heap st (buffer1 rd)) = replicate (nat (width * height)) (Fin 0)
         \<and> map val (heap st (buffer2 rd)) = replicate (nat (width * height)) (Fin 0)))
   \<and> (width * height = 0 \<longrightarrow>
      create limit width height =
        Inr \<lparr>heap = ((\<lambda>_. [])(0 := []))(1 := []),
             rippleData = Some \<lparr>buffer1 = 0, buffer2 = 1\<rparr>\<rparr>)"
  using assms by (simp add: create_def new_Float32Array_def Let_def)

text \<open>
  C5 as amended, with a limit of \<open>2^32\<close> cells: at \<open>3 \<times> 3\<close>, at \<open>0 \<times> 5\<close>, at
  \<open>-1 \<times> 3\<close>, at \<open>-1 \<times> -3\<close> (a positive product: three cells) and at
  \<open>65536 \<times> 65537\<close>.
\<close>

theorem create_allocates_witness:
  "(\<exists>st rd. create 4294967296 3 3 = Inr st \<and> rippleData st = Some rd \<and> buffer1 rd \<noteq> buffer2 rd
      \<and> map val (heap st (buffer1 rd)) = replicate 9 (Fin 0)
      \<and> map val (heap st (buffer2 rd)) = replicate 9 (Fin 0))
   \<and> create 4294967296 0 5 =
        Inr \<lparr>heap = ((\<lambda>_. [])(0 := []))(1 := []),
             rippleData = Some \<lparr>buffer1 = 0, buffer2 = 1\<rparr>\<rparr>
   \<and> create 4294967296 (- 1) 3 = Inl RangeError
   \<and> (\<exists>st rd. create 4294967296 (- 1) (- 3) = Inr st \<and> rippleData st = Some rd
      \<and> buffer1 rd \<noteq> buffer2 rd
      \<and> map val (heap st (buffer1 rd)) = replicate 3 (Fin 0)
      \<and> map val (heap st (buffer2 rd)) = replicate 3 (Fin 0))
   \<and> create 4294967296 65536 65537 = Inl RangeError"
  using create_allocates [of 4294967296 3 3] create_allocates [of 4294967296 0 5]
    create_allocates [of 4294967296 "- 1" 3] create_allocates [of 4294967296 "- 1" "- 3"]
    create_allocates [of 4294967296 65536 65537]
  by simp

text \<open>
  C5, as stated, fails: with \<open>width = 0\<close> and \<open>height = 5\<close> the product is 0, and
  the creation returns two empty arrays instead of an error, whether the engine's limit
  is \<open>2^32\<close> cells or none at all.
\<close>

theorem create_zero_size_succeeds:
  "(0::int) * 5 \<le> 0 \<and>
   create 4294967296 0 5 =
     Inr \<lparr>heap = ((\<lambda>_. [])(0 := []))(1 := []),
          rippleData = Some \<lparr>buffer1 = 0, buffer2 = 1\<rparr>\<rparr>
   \<and> create 0 0 5 =
     Inr \<lparr>heap = ((\<lambda>_. [])(0 := []))(1 := []),
          rippleData = Some \<lparr>buffer1 = 0, buffer2 = 1\<rparr>\<rparr>"
  by (simp add: create_def new_Float32Array_def)

section \<open>The solver step\<close>

text \<open>The loop writes no array but the one at \<open>b2\<close>, and does not resize that one.\<close>

lemma step_loop_other:
  "a \<noteq> b2 \<Longrightarrow> step_loop width sz s damping b1 b2 h i a = h a"
proof (induction width sz s damping b1 b2 h i rule: step_loop.induct)
  case (1 width sz s damping b1 b2 h i)
  show ?case
  proof (cases "i < sz - width")
    case True
    with 1 show ?thesis by (subst step_loop.simps) (simp add: fun_upd_def)
  next
    case False
    then show ?thesis by (subst step_loop.simps) simp
  qed
qed

lemma step_loop_length:
  "length (step_loop width sz s damping b1 b2 h i b2) = length (h b2)"
proof (induction width sz s damping b1 b2 h i rule: step_loop.induct)
  case (1 width sz s damping b1 b2 h i)
  show ?case
  proof (cases "i < sz - width")
    case True
    with 1 show ?thesis by (subst step_loop.simps) (simp add: fun_upd_def)
  next
    case False
    then show ?thesis by (subst step_loop.simps) simp
  qed
qed

text \<open>
  What the loop started at \<open>i\<close> leaves at index \<open>j\<close> of the array at \<open>b2\<close>, when
  the two addresses differ: the new value is computed from the arrays as they were before
  the loop, because iteration \<open>j\<close> is the only one that writes or reads index \<open>j\<close> of
  that array; the store converts it to binary32.
\<close>

lemma step_loop_get:
  "b1 \<noteq> b2 \<Longrightarrow>
   f32_get (step_loop width sz s damping b1 b2 h i b2) j =
     (if i \<le> j \<and> j < sz - width \<and> 0 \<le> j \<and> j < int (length (h b2))
      then to_f32 (wave_value width s damping (h b1) (h b2) j)
      else f32_get (h b2) j)"
proof (induction width sz s damping b1 b2 h i rule: step_loop.induct)
  case (1 width sz s damping b1 b2 h i)
  show ?case
  proof (cases "i < sz - width")
    case True
    let ?v = "wave_value width s damping (h b1) (h b2) i"
    let ?h = "h(b2 := f32_set (h b2) i ?v)"
    have unfold: "step_loop width sz s damping b1 b2 h i =
        step_loop width sz s damping b1 b2 ?h (i + 1)"
      using True by (subst step_loop.simps) (simp add: wave_value_def)
    have ih: "f32_get (step_loop width sz s damping b1 b2 ?h (i + 1) b2) j =
      (if i + 1 \<le> j \<and> j < sz - width \<and> 0 \<le> j \<and> j < int (length (?h b2))
       then to_f32 (wave_value width s damping (?h b1) (?h b2) j) else f32_get (?h b2) j)"
      using "1.IH" [OF True] "1.prems" by (simp add: wave_value_def fun_upd_def)
    have same: "j \<noteq> i \<Longrightarrow>
        wave_value width s damping (?h b1) (?h b2) j = wave_value width s damping (h b1) (h b2) j"
      using "1.prems" by (simp add: wave_value_def f32_get_set)
    show ?thesis
      unfolding unfold ih using True "1.prems" same
      by (auto simp: f32_get_set)
  next
    case False
    then show ?thesis by (subst step_loop.simps) auto
  qed
qed

lemma step_heap:
  "rippleData st = Some rd \<Longrightarrow>
   heap (step width height viscosity speed st) =
     step_loop width (width * height) (js_max (Fin 2) speed) (js_sub (Fin 1) viscosity)
       (buffer1 rd) (buffer2 rd) (heap st) width"
  by (simp add: step_def Let_def)

lemma step_rippleData [simp]: "rippleData (step width height viscosity speed st) = rippleData st"
  by (cases "rippleData st") (simp_all add: step_def Let_def)

lemma step_get_interior:
  assumes "rippleData st = Some rd"
    and "buffer1 rd \<noteq> buffer2 rd"
    and "length (heap st (buffer2 rd)) = nat (width * height)"
    and "0 < width"
    and "width \<le> i" and "i < width * height - width"
  shows "f32_get (heap (step width height viscosity speed st) (buffer2 rd)) i =
    to_f32 (wave_value width (js_max (Fin 2) speed) (js_sub (Fin 1) viscosity)
      (heap st (buffer1 rd)) (heap st (buffer2 rd)) i)"
proof -
  have "0 \<le> i" "i < int (length (heap st (buffer2 rd)))"
    using assms by auto
  then show ?thesis
    using assms by (simp add: step_heap step_loop_get)
qed

lemma step_buffer1:
  "rippleData st = Some rd \<Longrightarrow> buffer1 rd \<noteq> buffer2 rd \<Longrightarrow>
   heap (step width height viscosity speed st) (buffer1 rd) = heap st (buffer1 rd)"
  by (simp add: step_heap step_loop_other)

text \<open>
  The numbers of the examples. The literal \<^verbatim>\<open>0.04\<close> is the binary64 number nearest
  to \<open>1/25\<close>; the damping factor \<^verbatim>\<open>1 - 0.04\<close> is again rounded to binary64; its
  product with 512 is the binary64 number \<open>491.52...\<close>, and the cell that receives it
  holds the nearest binary32 number, \<open>16106127 / 32768 = 491.5199890136719\<close>. With
  the divisor 3 the quotient \<open>1024 / 3\<close> is rounded as well.
\<close>

lemma viscosity_004: "binary64 (1 / 25) = Fin (5764607523034235 / 144115188075855872)"
  unfolding binary64_def
  by (subst round_to_neg [where m = 5]) (simp_all add: round_even_def Let_def)

lemma damping_096:
  "js_sub (Fin 1) (binary64 (1 / 25)) = Fin (1080863910568919 / 1125899906842624)"
  apply (simp only: viscosity_004)
  unfolding js_sub_def js_neg.simps js_add.simps binary64_def
  by (subst round_to_neg [where m = 1]) (simp_all add: round_even_def Let_def)

lemma damped_512:
  "js_mul (Fin 512) (Fin (1080863910568919 / 1125899906842624)) =
     Fin (1080863910568919 / 2199023255552)"
  unfolding js_mul.simps binary64_def
  by (subst round_to_pos [where e = 8]) (simp_all add: round_even_def Let_def)

lemma stored_damped_512:
  "to_f32 (Fin (1080863910568919 / 2199023255552)) = Fin (16106127 / 32768)"
  unfolding to_f32.simps binary32_def
  by (subst round_to_pos [where e = 8]) (simp_all add: round_even_def Let_def)

lemma third_1024: "js_div (Fin 1024) (Fin 3) = Fin (6004799503160661 / 17592186044416)"
  unfolding js_div.simps binary64_def
  by (subst round_to_pos [where e = 8]) (simp_all add: round_even_def Let_def)

lemma third_1024_sub:
  "js_sub (Fin (6004799503160661 / 17592186044416)) (Fin 0) =
     Fin (6004799503160661 / 17592186044416)"
  unfolding js_sub_def js_neg.simps js_add.simps binary64_def
  by (subst round_to_pos [where e = 8]) (simp_all add: round_even_def Let_def)

lemma damped_third:
  "js_mul (Fin (6004799503160661 / 17592186044416)) (Fin (1080863910568919 / 1125899906842624)) =
     Fin (2882303761517117 / 8796093022208)"
  unfolding js_mul.simps binary64_def
  by (subst round_to_pos [where e = 8]) (simp_all add: round_even_def Let_def)

lemma stored_damped_third:
  "to_f32 (Fin (2882303761517117 / 8796093022208)) = Fin (5368709 / 16384)"
  unfolding to_f32.simps binary32_def
  by (subst round_to_pos [where e = 8]) (simp_all add: round_even_def Let_def)

lemma half_1024: "js_div (Fin 1024) (Fin 2) = Fin 512"
  by simp

lemma sub0_512: "js_sub (Fin 512) (Fin 0) = Fin 512"
  by (simp add: js_sub_def)

lemma sum4_vals: "js_add (js_add (js_add (Fin 512) (Fin 0)) (Fin 512)) (Fin 0) = Fin 1024"
  by simp

lemma poked33_rd: "rippleData poked33 = Some \<lparr>buffer1 = 0, buffer2 = 1\<rparr>"
  by (simp add: poked33_def)

lemma poked33_length:
  "length (heap poked33 (buffer1 \<lparr>buffer1 = 0, buffer2 = 1\<rparr>)) = nat (3 * 3)"
  "length (heap poked33 (buffer2 \<lparr>buffer1 = 0, buffer2 = 1\<rparr>)) = nat (3 * 3)"
  by (simp_all add: poked33_def)

lemma poked33_cells:
  "f32_get (heap poked33 0) 1 = Fin 512" "f32_get (heap poked33 0) 3 = Fin 512"
  "f32_get (heap poked33 0) 5 = Fin 0" "f32_get (heap poked33 0) 7 = Fin 0"
  "f32_get (heap poked33 1) 4 = Fin 0"
  by (simp_all add: poked33_def f32_get_def)

text \<open>
  C1, as the code has it. In a state whose two arrays are distinct and hold
  \<open>width * height\<close> cells each, the step leaves at every interior index \<open>i\<close> of the
  scratch array the value of the formula, computed in JavaScript numbers from the current
  array \<open>C\<close> and the scratch array \<open>N\<close> as they were before the step, and converted
  to binary32 by the store. The current array is not modified. The divisor is
  \<^verbatim>\<open>Math.max(2.0, speed)\<close>: 2 for a speed below 2 and for \<open>-Infinity\<close>, the speed
  itself from 2 on, and NaN for NaN.
\<close>

theorem step_interior:
  assumes "rippleData st = Some rd"
    and "buffer1 rd \<noteq> buffer2 rd"
    and "length (heap st (buffer1 rd)) = nat (width * height)"
    and "length (heap st (buffer2 rd)) = nat (width * height)"
    and "0 < width"
    and "width \<le> i" and "i < width * height - width"
    and "C = heap st (buffer1 rd)" and "N = heap st (buffer2 rd)"
    and "N' = heap (step width height viscosity speed st) (buffer2 rd)"
    and "effectiveSpeed = js_max (Fin 2) speed"
  shows "f32_get N' i =
           to_f32
             (js_mul
                (js_sub
                   (js_div
                      (js_add
                         (js_add (js_add (f32_get C (i - 1)) (f32_get C (i + 1)))
                            (f32_get C (i - width)))
                         (f32_get C (i + width)))
                      effectiveSpeed)
                   (f32_get N i))
                (js_sub (Fin 1) viscosity))
         \<and> heap (step width height viscosity speed st) (buffer1 rd) = C
         \<and> (\<forall>r. speed = Fin r \<and> r < 2 \<longrightarrow> effectiveSpeed = Fin 2)
         \<and> (\<forall>r. speed = Fin r \<and> 2 \<le> r \<longrightarrow> effectiveSpeed = Fin r)
         \<and> (speed = PInf \<longrightarrow> effectiveSpeed = PInf)
         \<and> (speed = NInf \<longrightarrow> effectiveSpeed = Fin 2)
         \<and> (speed = NaN \<longrightarrow> effectiveSpeed = NaN)"
  using assms by (auto simp: step_get_interior step_buffer1 wave_value_def)

text \<open>
  C1 as amended, on the disturbed 3 by 3 field at the centre cell \<open>i = 4\<close> with
  viscosity 0.04. With speed 1 the divisor is 2 and the cell receives
  \<open>((512 + 0 + 512 + 0) / 2 - 0) * (1 - 0.04)\<close> as a binary32 number,
  \<open>16106127 / 32768\<close>; with speed 3 the divisor is 3 and the cell receives
  \<open>5368709 / 16384\<close>.
\<close>

theorem step_interior_witness:
  "f32_get (heap (step 3 3 (binary64 (1 / 25)) (Fin 1) poked33) 1) 4 =
     to_f32
       (js_mul
          (js_sub
             (js_div
                (js_add
                   (js_add
                      (js_add (f32_get (heap poked33 0) 3) (f32_get (heap poked33 0) 5))
                      (f32_get (heap poked33 0) 1))
                   (f32_get (heap poked33 0) 7))
                (Fin 2))
             (f32_get (heap poked33 1) 4))
          (js_sub (Fin 1) (binary64 (1 / 25))))
   \<and> f32_get (heap (step 3 3 (binary64 (1 / 25)) (Fin 1) poked33) 1) 4 = Fin (16106127 / 32768)
   \<and> heap (step 3 3 (binary64 (1 / 25)) (Fin 1) poked33) 0 = heap poked33 0
   \<and> js_max (Fin 2) (Fin 1) = Fin 2
   \<and> js_max (Fin 2) (Fin 3) = Fin 3
   \<and> f32_get (heap (step 3 3 (binary64 (1 / 25)) (Fin 3) poked33) 1) 4 = Fin (5368709 / 16384)"
proof -
  have i: "(0::int) < 3" "(3::int) \<le> 4" "(4::int) < 3 * 3 - 3" by simp_all
  have b: "heap poked33 0 = heap poked33 (buffer1 \<lparr>buffer1 = 0, buffer2 = 1\<rparr>)"
    "heap poked33 1 = heap poked33 (buffer2 \<lparr>buffer1 = 0, buffer2 = 1\<rparr>)"
    by simp_all
  have n1: "heap (step 3 3 (binary64 (1 / 25)) (Fin 1) poked33) 1 =
       heap (step 3 3 (binary64 (1 / 25)) (Fin 1) poked33) (buffer2 \<lparr>buffer1 = 0, buffer2 = 1\<rparr>)"
    by simp
  have n3: "heap (step 3 3 (binary64 (1 / 25)) (Fin 3) poked33) 1 =
       heap (step 3 3 (binary64 (1 / 25)) (Fin 3) poked33) (buffer2 \<lparr>buffer1 = 0, buffer2 = 1\<rparr>)"
    by simp
  have m1: "Fin 2 = js_max (Fin 2) (Fin 1)" by simp
  have m3: "Fin 3 = js_max (Fin 2) (Fin 3)" by simp
  have one: "f32_get (heap (step 3 3 (binary64 (1 / 25)) (Fin 1) poked33) 1) 4 =
     to_f32
       (js_mul
          (js_sub
             (js_div
                (js_add
                   (js_add
                      (js_add (f32_get (heap poked33 0) 3) (f32_get (heap poked33 0) 5))
                      (f32_get (heap poked33 0) 1))
                   (f32_get (heap poked33 0) 7))
                (Fin 2))
             (f32_get (heap poked33 1) 4))
          (js_sub (Fin 1) (binary64 (1 / 25))))
   \<and> heap (step 3 3 (binary64 (1 / 25)) (Fin 1) poked33) 0 = heap poked33 0"
    using step_interior [OF poked33_rd _ poked33_length i b n1 m1]
    by (simp only: ripple_data.simps) simp
  have three: "f32_get (heap (step 3 3 (binary64 (1 / 25)) (Fin 3) poked33) 1) 4 =
     to_f32
       (js_mul
          (js_sub
             (js_div
                (js_add
                   (js_add
                      (js_add (f32_get (heap poked33 0) 3) (f32_get (heap poked33 0) 5))
                      (f32_get (heap poked33 0) 1))
                   (f32_get (heap poked33 0) 7))
                (Fin 3))
             (f32_get (heap poked33 1) 4))
          (js_sub (Fin 1) (binary64 (1 / 25))))"
    using step_interior [OF poked33_rd _ poked33_length i b n3 m3]
    by (simp only: ripple_data.simps) simp
  have v1: "to_f32
       (js_mul
          (js_sub
             (js_div
                (js_add
                   (js_add
                      (js_add (f32_get (heap poked33 0) 3) (f32_get (heap poked33 0) 5))
                      (f32_get (heap poked33 0) 1))
                   (f32_get (heap poked33 0) 7))
                (Fin 2))
             (f32_get (heap poked33 1) 4))
          (js_sub (Fin 1) (binary64 (1 / 25)))) = Fin (16106127 / 32768)"
    unfolding poked33_cells sum4_vals damping_096 half_1024 sub0_512 damped_512
      stored_damped_512 ..
  have v3: "to_f32
       (js_mul
          (js_sub
             (js_div
                (js_add
                   (js_add
                      (js_add (f32_get (heap poked33 0) 3) (f32_get (heap poked33 0) 5))
                      (f32_get (heap poked33 0) 1))
                   (f32_get (heap poked33 0) 7))
                (Fin 3))
             (f32_get (heap poked33 1) 4))
          (js_sub (Fin 1) (binary64 (1 / 25)))) = Fin (5368709 / 16384)"
    unfolding poked33_cells sum4_vals damping_096 third_1024 third_1024_sub damped_third
      stored_damped_third ..
  have mx: "js_max (Fin 2) (Fin 1) = Fin 2" "js_max (Fin 2) (Fin 3) = Fin 3"
    by simp_all
  from one have o1: "f32_get (heap (step 3 3 (binary64 (1 / 25)) (Fin 1) poked33) 1) 4 =
      Fin (16106127 / 32768)"
    by (simp only: v1)
  from three have o3: "f32_get (heap (step 3 3 (binary64 (1 / 25)) (Fin 3) poked33) 1) 4 =
      Fin (5368709 / 16384)"
    by (simp only: v3)
  from one o1 o3 mx show ?thesis
    by (intro conjI) (simp_all only: )
qed

text \<open>
  C1, as stated, fails: the cell does not hold the value of the formula. On the
  disturbed 3 by 3 field with viscosity 0.04 and speed 2, the formula's value at the
  centre cell is the JavaScript number \<open>1080863910568919 / 2199023255552\<close>, that is
  \<open>491.52...\<close>; the cell holds \<open>16106127 / 32768 = 491.5199890136719\<close>.
\<close>

theorem stored_value_is_rounded:
  "js_mul
     (js_sub
        (js_div
           (js_add
              (js_add
                 (js_add (f32_get (heap poked33 0) 3) (f32_get (heap poked33 0) 5))
                 (f32_get (heap poked33 0) 1))
              (f32_get (heap poked33 0) 7))
           (js_max (Fin 2) (Fin 2)))
        (f32_get (heap poked33 1) 4))
     (js_sub (Fin 1) (binary64 (1 / 25)))
     = Fin (1080863910568919 / 2199023255552)
   \<and> f32_get (heap (step 3 3 (binary64 (1 / 25)) (Fin 2) poked33) 1) 4 = Fin (16106127 / 32768)
   \<and> (1080863910568919 / 2199023255552 :: real) \<noteq> 16106127 / 32768"
proof -
  have mx: "js_max (Fin 2) (Fin 2) = Fin 2" by simp
  have f: "js_mul
     (js_sub
        (js_div
           (js_add
              (js_add
                 (js_add (f32_get (heap poked33 0) 3) (f32_get (heap poked33 0) 5))
                 (f32_get (heap poked33 0) 1))
              (f32_get (heap poked33 0) 7))
           (js_max (Fin 2) (Fin 2)))
        (f32_get (heap poked33 1) 4))
     (js_sub (Fin 1) (binary64 (1 / 25)))
     = Fin (1080863910568919 / 2199023255552)"
    unfolding poked33_cells sum4_vals damping_096 mx half_1024 sub0_512 damped_512 ..
  have i: "(0::int) < 3" "(3::int) \<le> 4" "(4::int) < 3 * 3 - 3" by simp_all
  have ne: "buffer1 \<lparr>buffer1 = 0, buffer2 = 1\<rparr> \<noteq> buffer2 \<lparr>buffer1 = 0, buffer2 = 1::nat\<rparr>"
    by simp
  have "f32_get (heap (step 3 3 (binary64 (1 / 25)) (Fin 2) poked33) 1) 4 =
      to_f32 (wave_value 3 (js_max (Fin 2) (Fin 2)) (js_sub (Fin 1) (binary64 (1 / 25)))
        (heap poked33 0) (heap poked33 1) 4)"
    using step_get_interior [OF poked33_rd ne poked33_length(2) i,
        of "binary64 (1 / 25)" "Fin 2"]
    by (simp only: ripple_data.simps)
  also have "\<dots> = to_f32 (Fin (1080863910568919 / 2199023255552))"
    using f by (simp add: wave_value_def)
  finally have s: "f32_get (heap (step 3 3 (binary64 (1 / 25)) (Fin 2) poked33) 1) 4 =
      Fin (16106127 / 32768)"
    by (simp only: stored_damped_512)
  have "(1080863910568919 / 2199023255552 :: real) \<noteq> 16106127 / 32768"
    by simp
  with f s show ?thesis by (intro conjI)
qed

text \<open>
  Finite cells are binary32 numbers, so the sums, the quotient and the difference of the
  formula stay far below the largest binary64 number.
\<close>

lemma f32_get_bound: "f32_get a i = Fin r \<Longrightarrow> \<bar>r\<bar> \<le> 2 powi 128"
  using val_bound [of "a ! nat i" r] by (simp add: f32_get_def split: if_splits)

lemma js_add_within:
  assumes "\<bar>x\<bar> \<le> 2 powi m" "\<bar>y\<bar> \<le> 2 powi m" "0 \<le> m" "m < 1000"
  shows "\<exists>r. js_add (Fin x) (Fin y) = Fin r \<and> \<bar>r\<bar> \<le> 2 powi (m + 1)"
proof -
  have e: "(2::real) powi (m + 1) = 2 * 2 powi m"
    by (simp add: power_int_add)
  have "\<bar>x + y\<bar> \<le> of_int 1 * 2 powi (m + 1)"
    using assms(1,2) unfolding e by simp
  moreover have "(2::real) powi (m + 1) < 2 powi 1024"
    using assms(4) by (intro power_int_strict_increasing) simp_all
  then have "real_of_int 1 * 2 powi (m + 1) < 2 powi 1024"
    by (simp only: of_int_1 mult_1)
  moreover note assms(3)
  ultimately have "\<exists>r. binary64 (x + y) = Fin r \<and> \<bar>r\<bar> \<le> of_int 1 * 2 powi (m + 1)"
    by (intro binary64_le) simp_all
  then show ?thesis by simp
qed

lemma js_div_within:
  assumes "\<bar>x\<bar> \<le> 2 powi m" "0 \<le> m" "m < 1000" "speed \<noteq> NaN"
  shows "\<exists>r. js_div (Fin x) (js_max (Fin 2) speed) = Fin r \<and> \<bar>r\<bar> \<le> 2 powi m"
proof -
  have lt: "(2::real) powi m < 2 powi 1024"
    using assms(3) by (intro power_int_strict_increasing) simp_all
  show ?thesis
  proof (cases speed)
  case (Fin s)
  have m: "1 \<le> max 2 s" by simp
  have "\<bar>x\<bar> \<le> \<bar>x\<bar> * max 2 s"
    using mult_left_mono [of 1 "max 2 s" "\<bar>x\<bar>"] m by simp
  then have "\<bar>x\<bar> / max 2 s \<le> \<bar>x\<bar>"
    using m by (simp add: pos_divide_le_eq)
  moreover have "\<bar>x / max 2 s\<bar> = \<bar>x\<bar> / max 2 s"
    by simp
  ultimately have "\<bar>x / max 2 s\<bar> \<le> of_int 1 * 2 powi m"
    using assms(1) by simp
  moreover have "real_of_int 1 * 2 powi m < 2 powi 1024"
    by (simp only: of_int_1 mult_1 lt)
  moreover note assms(2)
  ultimately have "\<exists>r. binary64 (x / max 2 s) = Fin r \<and> \<bar>r\<bar> \<le> of_int 1 * 2 powi m"
    by (intro binary64_le) simp_all
  moreover have "max 2 s \<noteq> 0" by simp
  ultimately show ?thesis using Fin by simp
next
  case PInf
  then show ?thesis by simp
next
  case NInf
  have "\<bar>x / 2\<bar> \<le> of_int 1 * 2 powi m"
    using assms(1) by simp
  moreover have "real_of_int 1 * 2 powi m < 2 powi 1024"
    by (simp only: of_int_1 mult_1 lt)
  moreover note assms(2)
  ultimately have "\<exists>r. binary64 (x / 2) = Fin r \<and> \<bar>r\<bar> \<le> of_int 1 * 2 powi m"
    by (intro binary64_le) simp_all
  then show ?thesis using NInf by simp
next
  case NaN
  with assms(4) show ?thesis by simp
qed
qed

lemma is_finite_addD: "is_finite (js_add a b) \<Longrightarrow> is_finite a \<and> is_finite b"
  by (cases a; cases b) simp_all

lemma is_finite_subD: "is_finite (js_sub a b) \<Longrightarrow> is_finite a \<and> is_finite b"
  by (cases a; cases b) (simp_all add: js_sub_def)

lemma is_finite_divD:
  "is_finite (js_div a (js_max (Fin 2) speed)) \<Longrightarrow> is_finite a \<and> speed \<noteq> NaN"
  by (cases a; cases speed) (simp_all split: if_splits)

lemma is_finite_Fin: "is_finite v \<longleftrightarrow> (\<exists>r. v = Fin r)"
  by (cases v) simp_all

lemma js_mul_zero: "js_mul a (Fin 0) = (if is_finite a then Fin 0 else NaN)"
  by (cases a) simp_all

text \<open>
  The bracket of the formula is a finite number exactly when the five cells it reads are
  finite and the speed is not NaN: finite cells are binary32 numbers, below \<open>2^128\<close>
  in magnitude, so their sum, its quotient and the difference do not overflow binary64.
\<close>

lemma bracket_finite:
  "is_finite
     (js_sub
        (js_div
           (js_add (js_add (js_add (f32_get C i1) (f32_get C i2)) (f32_get C i3)) (f32_get C i4))
           (js_max (Fin 2) speed))
        (f32_get N i))
   \<longleftrightarrow> is_finite (f32_get C i1) \<and> is_finite (f32_get C i2) \<and> is_finite (f32_get C i3)
       \<and> is_finite (f32_get C i4) \<and> is_finite (f32_get N i) \<and> speed \<noteq> NaN"
  (is "?L \<longleftrightarrow> ?R")
proof
  assume ?L
  then show ?R
    by (auto dest!: is_finite_subD is_finite_divD is_finite_addD)
next
  assume r: ?R
  then obtain a b c d n where v: "f32_get C i1 = Fin a" "f32_get C i2 = Fin b"
      "f32_get C i3 = Fin c" "f32_get C i4 = Fin d" "f32_get N i = Fin n"
    by (auto simp: is_finite_Fin)
  note bd = v [THEN f32_get_bound]
  have up: "\<bar>z\<bar> \<le> 2 powi 128 \<Longrightarrow> \<bar>z\<bar> \<le> 2 powi m" if "128 \<le> m" for z :: real and m
  proof -
    assume "\<bar>z\<bar> \<le> 2 powi 128"
    moreover have "(2::real) powi 128 \<le> 2 powi m"
      using that by (intro power_int_increasing) simp_all
    ultimately show ?thesis by linarith
  qed
  obtain s1 where s1: "js_add (Fin a) (Fin b) = Fin s1" "\<bar>s1\<bar> \<le> 2 powi 129"
    using js_add_within [of a 128 b] bd by auto
  obtain s2 where s2: "js_add (Fin s1) (Fin c) = Fin s2" "\<bar>s2\<bar> \<le> 2 powi 130"
    using js_add_within [of s1 129 c] s1(2) up [of 129 c] bd by auto
  obtain s3 where s3: "js_add (Fin s2) (Fin d) = Fin s3" "\<bar>s3\<bar> \<le> 2 powi 131"
    using js_add_within [of s2 130 d] s2(2) up [of 130 d] bd by auto
  obtain q where q: "js_div (Fin s3) (js_max (Fin 2) speed) = Fin q" "\<bar>q\<bar> \<le> 2 powi 131"
    using js_div_within [of s3 131 speed] s3(2) r by auto
  obtain t where t: "js_add (Fin q) (Fin (- n)) = Fin t"
    using js_add_within [of q 131 "- n"] q(2) up [of 131 n] bd by auto
  show ?L
    unfolding v js_sub_def js_neg.simps s1 s2 s3 q t by simp
qed

text \<open>
  C9, as the code has it. With viscosity 1 the damping factor is 0, and the step stores at
  an interior index 0 if the four neighbours in the current array and the index's own
  scratch value are finite and the speed is not NaN, and NaN otherwise. The step has no
  error result.
\<close>

theorem full_viscosity_zeroes_finite_cells:
  assumes "rippleData st = Some rd"
    and "buffer1 rd \<noteq> buffer2 rd"
    and "length (heap st (buffer1 rd)) = nat (width * height)"
    and "length (heap st (buffer2 rd)) = nat (width * height)"
    and "0 < width"
    and "width \<le> i" and "i < width * height - width"
    and "C = heap st (buffer1 rd)" and "N = heap st (buffer2 rd)"
  shows "js_sub (Fin 1) (Fin 1) = Fin 0 \<and>
         f32_get (heap (step width height (Fin 1) speed st) (buffer2 rd)) i =
           (if is_finite (f32_get C (i - 1)) \<and> is_finite (f32_get C (i + 1))
               \<and> is_finite (f32_get C (i - width)) \<and> is_finite (f32_get C (i + width))
               \<and> is_finite (f32_get N i) \<and> speed \<noteq> NaN
            then Fin 0 else NaN)"
proof -
  have d: "js_sub (Fin 1) (Fin 1) = Fin 0"
    by (simp add: js_sub_def)
  have "f32_get (heap (step width height (Fin 1) speed st) (buffer2 rd)) i =
      to_f32 (wave_value width (js_max (Fin 2) speed) (Fin 0) C N i)"
    using assms by (simp add: step_get_interior d)
  also have "\<dots> =
           (if is_finite (f32_get C (i - 1)) \<and> is_finite (f32_get C (i + 1))
               \<and> is_finite (f32_get C (i - width)) \<and> is_finite (f32_get C (i + width))
               \<and> is_finite (f32_get N i) \<and> speed \<noteq> NaN
            then Fin 0 else NaN)"
    unfolding wave_value_def js_mul_zero bracket_finite by simp
  finally show ?thesis using d by simp
qed

text \<open>C9 as amended, on the disturbed 3 by 3 field at the centre cell, with speed 2.\<close>

theorem full_viscosity_zeroes_finite_cells_witness:
  "f32_get (heap (step 3 3 (Fin 1) (Fin 2) poked33) 1) 4 = Fin 0"
proof -
  have i: "(0::int) < 3" "(3::int) \<le> 4" "(4::int) < 3 * 3 - 3" by simp_all
  have b: "heap poked33 0 = heap poked33 (buffer1 \<lparr>buffer1 = 0, buffer2 = 1\<rparr>)"
    "heap poked33 1 = heap poked33 (buffer2 \<lparr>buffer1 = 0, buffer2 = 1\<rparr>)"
    by simp_all
  have c: "f32_get (heap poked33 0) (4 - 1) = Fin 512" "f32_get (heap poked33 0) (4 + 1) = Fin 0"
    "f32_get (heap poked33 0) (4 - 3) = Fin 512" "f32_get (heap poked33 0) (4 + 3) = Fin 0"
    using poked33_cells by simp_all
  from full_viscosity_zeroes_finite_cells [OF poked33_rd _ poked33_length i b, of "Fin 2"]
  show ?thesis
    by (simp only: ripple_data.simps) (simp add: c poked33_cells del: One_nat_def)
qed

lemma fresh33_rd: "rippleData fresh33 = Some \<lparr>buffer1 = 0, buffer2 = 1\<rparr>"
  by (simp add: fresh33_def)

text \<open>
  C9, as stated, fails on contents that are not finite. A pointer move with
  \<open>strength = Infinity\<close> on the fresh 3 by 3 field stores the infinity in the current
  array; the step with viscosity 1 then computes \<open>(Infinity / 2 - 0) * 0\<close> at the
  centre cell, which is NaN, not 0.
\<close>

theorem full_viscosity_infinite_amplitude:
  "map val (heap (handleMouseMove 3 3 1 PInf 1 1 fresh33) 0) =
     [PInf, PInf, Fin 0, PInf, PInf, Fin 0, Fin 0, Fin 0, Fin 0] \<and>
   f32_get (heap (step 3 3 (Fin 1) (Fin 2) (handleMouseMove 3 3 1 PInf 1 1 fresh33)) 1) 4 = NaN"
  by (simp add: handleMouseMove_def fresh33_def inject_rows.simps inject_row.simps f32_set_def
      step_def step_loop.simps f32_get_def js_sub_def Let_def numeral_eq_Suc)

section \<open>The render pass\<close>

lemma length_u8_set [simp]: "length (u8_set d k v) = length d"
  by (simp add: u8_set_def)

lemma u8_get_set:
  "u8_get (u8_set d k v) q = (if q = k \<and> 0 \<le> k \<and> k < int (length d) then v else u8_get d q)"
  by (auto simp: u8_get_def u8_set_def nth_list_update)

lemma length_put_pixel [simp]: "length (put_pixel out i img k) = length out"
  by (simp add: put_pixel_def)

lemma u8_get_put_pixel_at:
  assumes "0 \<le> ch" "ch < 4"
  shows "u8_get (put_pixel out i img k) (i * 4 + ch) =
     (if 0 \<le> i * 4 + ch \<and> i * 4 + ch < int (length out)
      then (if ch = 3 then 255 else u8_get img (k * 4 + ch))
      else u8_get out (i * 4 + ch))"
proof -
  from assms have "ch = 0 \<or> ch = 1 \<or> ch = 2 \<or> ch = 3" by presburger
  then show ?thesis
    by (elim disjE) (simp_all add: put_pixel_def u8_get_set)
qed

lemma u8_get_put_pixel_other:
  assumes "q div 4 \<noteq> i"
  shows "u8_get (put_pixel out i img k) q = u8_get out q"
proof -
  from assms have "q \<noteq> i * 4" "q \<noteq> i * 4 + 1" "q \<noteq> i * 4 + 2" "q \<noteq> i * 4 + 3"
    by presburger+
  then show ?thesis
    by (simp add: put_pixel_def u8_get_set)
qed

lemma u8_get_put_pixel:
  "u8_get (put_pixel out i img k) q =
     (if 0 \<le> q \<and> q < int (length out) \<and> q div 4 = i
      then (if q mod 4 = 3 then 255 else u8_get img (k * 4 + q mod 4))
      else u8_get out q)"
proof (cases "q div 4 = i")
  case True
  then have q: "q = i * 4 + q mod 4" by presburger
  have "0 \<le> q mod 4" "q mod 4 < 4" by simp_all
  from u8_get_put_pixel_at [OF this, of out i img k] True show ?thesis
    using q by simp
next
  case False
  then show ?thesis
    by (simp add: u8_get_put_pixel_other)
qed

lemma render_pixel_sample:
  "render_pixel width sz c img out i = put_pixel out i img (sample_index width sz c i)"
  by (simp add: render_pixel_def sample_index_def)

lemma length_render_loop [simp]:
  "length (render_loop width sz c img out i) = length out"
proof (induction width sz c img out i rule: render_loop.induct)
  case (1 width sz c img out i)
  show ?case
  proof (cases "i < sz")
    case True
    with 1 show ?thesis by (subst render_loop.simps) (simp add: render_pixel_sample)
  next
    case False
    then show ?thesis by (subst render_loop.simps) simp
  qed
qed

lemma render_loop_get:
  "u8_get (render_loop width sz c img out i) q =
     (if 0 \<le> q \<and> q < int (length out) \<and> i \<le> q div 4 \<and> q div 4 < sz
      then (if q mod 4 = 3 then 255
            else u8_get img (sample_index width sz c (q div 4) * 4 + q mod 4))
      else u8_get out q)"
proof (induction width sz c img out i rule: render_loop.induct)
  case (1 width sz c img out i)
  show ?case
  proof (cases "i < sz")
    case True
    have unfold: "render_loop width sz c img out i =
        render_loop width sz c img (render_pixel width sz c img out i) (i + 1)"
      using True by (subst render_loop.simps) simp
    show ?thesis
      unfolding unfold "1.IH" [OF True]
      using True by (auto simp: render_pixel_sample u8_get_put_pixel)
  next
    case False
    then show ?thesis by (subst render_loop.simps) auto
  qed
qed

lemma length_createImageData:
  "0 < width \<Longrightarrow> 0 < height \<Longrightarrow> length (createImageData width height) = nat (4 * (width * height))"
  by (simp add: createImageData_def abs_mult)

lemma render_get:
  assumes "0 < width" "0 < height" "0 \<le> i" "i < width * height" "0 \<le> ch" "ch < 4"
  shows "u8_get (render width height c img) (i * 4 + ch) =
     (if ch = 3 then 255
      else u8_get img (sample_index width (width * height) c i * 4 + ch))"
proof -
  have "(i * 4 + ch) div 4 = i" "(i * 4 + ch) mod 4 = ch"
    using assms by auto
  moreover have "0 \<le> i * 4 + ch" "i * 4 + ch < int (length (createImageData width height))"
    using assms by (auto simp: length_createImageData)
  ultimately show ?thesis
    using assms by (simp add: render_def render_loop_get)
qed

text \<open>
  The frame renders from the array that \<^verbatim>\<open>buffer1\<close> referred to when the frame
  began, and leaves that array as it was; after the frame it is the array that
  \<^verbatim>\<open>buffer2\<close> refers to.
\<close>

lemma update_output:
  assumes "rippleData st = Some rd" "buffer1 rd \<noteq> buffer2 rd"
  shows "snd (update width height viscosity speed imgData st) =
           Some (render width height (heap st (buffer1 rd)) imgData)"
  using assms
  by (simp add: update_def Let_def swap_def step_heap step_loop_other step_def)

lemma update_state:
  assumes "rippleData st = Some rd" and "buffer1 rd \<noteq> buffer2 rd"
  shows "map_option buffer2 (rippleData (fst (update width height viscosity speed imgData st)))
           = Some (buffer1 rd)"
    and "map_option buffer1 (rippleData (fst (update width height viscosity speed imgData st)))
           = Some (buffer2 rd)"
    and "heap (fst (update width height viscosity speed imgData st)) (buffer1 rd)
           = heap st (buffer1 rd)"
  using assms
  by (simp_all add: update_def Let_def swap_def step_heap step_loop_other step_def)

text \<open>
  The array the frame makes current: its cells in the first and the last row are those
  the scratch array had before the frame.
\<close>

lemma update_border:
  assumes "rippleData st = Some rd" and "buffer1 rd \<noteq> buffer2 rd"
    and "i < width \<or> width * height - width \<le> i"
  shows "f32_get (heap (fst (update width height viscosity speed imgData st)) (buffer2 rd)) i
           = f32_get (heap st (buffer2 rd)) i"
  using assms
  by (auto simp: update_def Let_def swap_def step_heap step_loop_get step_def)

lemma wrap32_id: "- (2 ^ 31) \<le> k \<Longrightarrow> k < 2 ^ 31 \<Longrightarrow> wrap32 k = k"
  by (simp add: wrap32_def)

lemma js_trunc_bounds:
  assumes "\<bar>r\<bar> < 2 ^ 31"
  shows "- (2 ^ 31) \<le> js_trunc r" "js_trunc r < 2 ^ 31"
proof -
  show "- (2 ^ 31) \<le> js_trunc r"
  proof (cases "0 \<le> r")
    case True
    then show ?thesis by (simp add: js_trunc_def)
  next
    case False
    have "- (2 ^ 31) \<le> r" using assms by linarith
    then have "- (2 ^ 31) \<le> \<lceil>r\<rceil>" by (simp add: le_ceiling_iff)
    with False show ?thesis by (simp add: js_trunc_def)
  qed
  show "js_trunc r < 2 ^ 31"
  proof (cases "0 \<le> r")
    case True
    have "r < 2 ^ 31" using assms by linarith
    then have "\<lfloor>r\<rfloor> < 2 ^ 31" by (simp add: floor_less_iff)
    with True show ?thesis by (simp add: js_trunc_def)
  next
    case False
    then have "\<lceil>r\<rceil> \<le> 0" by (simp add: ceiling_le_iff)
    with False show ?thesis by (simp add: js_trunc_def)
  qed
qed

lemma wrap32_trunc: "\<bar>r\<bar> < 2 ^ 31 \<Longrightarrow> wrap32 (js_trunc r) = js_trunc r"
  using js_trunc_bounds [of r] by (simp add: wrap32_id)

text \<open>
  Truncation toward zero, said without the floor and the ceiling: the result is the
  integer of the same sign whose magnitude is the integer part of the magnitude.
\<close>

lemma js_trunc_toward_zero:
  "\<bar>real_of_int (js_trunc d)\<bar> \<le> \<bar>d\<bar> \<and> \<bar>d\<bar> < \<bar>real_of_int (js_trunc d)\<bar> + 1
   \<and> 0 \<le> real_of_int (js_trunc d) * d"
proof (cases "0 \<le> d")
  case True
  then have "0 \<le> \<lfloor>d\<rfloor>" by simp
  then have "0 \<le> real_of_int \<lfloor>d\<rfloor>" by simp
  moreover have "real_of_int \<lfloor>d\<rfloor> \<le> d" "d < real_of_int \<lfloor>d\<rfloor> + 1" by linarith+
  ultimately show ?thesis
    using True by (simp add: js_trunc_def)
next
  case False
  then have "\<lceil>d\<rceil> \<le> 0" by (simp add: ceiling_le_iff)
  then have c: "real_of_int \<lceil>d\<rceil> \<le> 0" by simp
  have b: "d \<le> real_of_int \<lceil>d\<rceil>" "real_of_int \<lceil>d\<rceil> < d + 1" by linarith+
  have "0 \<le> real_of_int \<lceil>d\<rceil> * d"
    using c False by (intro mult_nonpos_nonpos) simp_all
  then show ?thesis
    using False b c by (simp add: js_trunc_def)
qed

lemma to_int32_sub_self: "to_int32 (js_sub v v) = 0"
  by (cases v) (simp_all add: js_sub_def wrap32_def js_trunc_def)

lemma finalIdx_range:
  "0 < sz \<Longrightarrow> 0 \<le> finalIdx width sz c i \<and> finalIdx width sz c i \<le> sz - 1"
  by (simp add: finalIdx_def)

lemma sample_index_range:
  "0 \<le> i \<Longrightarrow> i < sz \<Longrightarrow> 0 \<le> sample_index width sz c i \<and> sample_index width sz c i < sz"
  using finalIdx_range [of sz width c i] by (simp add: sample_index_def)

text \<open>The cells of the example fields, and the differences the render pass takes there.\<close>

lemma poke33: "handleMouseMove 3 3 1 (Fin 512) 1 1 fresh33 = poked33"
  by (simp add: handleMouseMove_def fresh33_def poked33_def inject_rows.simps inject_row.simps
      f32_set_def fun_eq_iff numeral_eq_Suc)

lemma poked33_vals:
  "map val (heap poked33 0) = [Fin 512, Fin 512, Fin 0, Fin 512, Fin 512, Fin 0, Fin 0, Fin 0, Fin 0]"
  by (simp add: poked33_def)

lemma poked33_offsets:
  "xOffset (heap poked33 0) 0 = 0" "yOffset 3 (heap poked33 0) 0 = 0"
  "xOffset (heap poked33 0) 1 = 512"
  "xOffset (heap poked33 0) 5 = 512" "yOffset 3 (heap poked33 0) 5 = 0"
  "xOffset (heap poked33 0) 7 = 0" "yOffset 3 (heap poked33 0) 7 = 0"
  by (simp_all add: xOffset_def yOffset_def poked33_def f32_get_def js_sub_def wrap32_def
      js_trunc_def)

lemma poked33_render:
  "render 3 3 (heap poked33 0) image33 =
     [0, 1, 2, 255, 32, 33, 34, 255, 8, 9, 10, 255, 32, 33, 34, 255, 32, 33, 34, 255,
      32, 33, 34, 255, 24, 25, 26, 255, 28, 29, 30, 255, 32, 33, 34, 255]"
  by (simp add: render_def createImageData_def render_loop.simps render_pixel_def put_pixel_def
      u8_set_def u8_get_def image33_def xOffset_def yOffset_def poked33_def f32_get_def
      js_sub_def wrap32_def js_trunc_def finalIdx_def reload_def numeral_eq_Suc)

lemma image33_bytes:
  "u8_get image33 0 = 0" "u8_get image33 1 = 1" "u8_get image33 2 = 2"
  "u8_get image33 20 = 20" "u8_get image33 21 = 21" "u8_get image33 22 = 22"
  "u8_get image33 28 = 28" "u8_get image33 29 = 29" "u8_get image33 30 = 30"
  "u8_get image33 32 = 32" "u8_get image33 33 = 33" "u8_get image33 34 = 34"
  by (simp_all add: image33_def u8_get_def)

text \<open>
  C3. For a pixel index \<open>i\<close> of the image and any content \<open>c\<close> of the array, the
  index \<open>finalIdx\<close> that the displaced branch reads lies in \<open>[0, sz - 1]\<close>: it is the
  displaced index \<open>reload\<close> when that is in range, 0 when it is below and \<open>sz - 1\<close>
  when it is above. The displaced branch reads the source bytes at \<open>finalIdx * 4\<close> to
  \<open>finalIdx * 4 + 2\<close>, which lie inside an image of \<open>4 * sz\<close> bytes.
\<close>

theorem sample_index_clamped:
  assumes "0 \<le> i" and "i < sz"
  shows "0 \<le> finalIdx width sz c i \<and> finalIdx width sz c i \<le> sz - 1
    \<and> (reload width c i < 0 \<longrightarrow> finalIdx width sz c i = 0)
    \<and> (sz - 1 < reload width c i \<longrightarrow> finalIdx width sz c i = sz - 1)
    \<and> (0 \<le> reload width c i \<and> reload width c i \<le> sz - 1 \<longrightarrow>
          finalIdx width sz c i = reload width c i)
    \<and> (xOffset c i \<noteq> 0 \<or> yOffset width c i \<noteq> 0 \<longrightarrow>
          render_pixel width sz c img out i = put_pixel out i img (finalIdx width sz c i))
    \<and> 0 \<le> finalIdx width sz c i * 4 \<and> finalIdx width sz c i * 4 + 3 < 4 * sz"
proof -
  have "0 < sz" using assms by linarith
  from finalIdx_range [OF this, of width c i]
  have "0 \<le> finalIdx width sz c i * 4" "finalIdx width sz c i * 4 + 3 < 4 * sz"
    by linarith+
  then show ?thesis
    using assms by (auto simp: finalIdx_def render_pixel_def)
qed

text \<open>
  C3 on the disturbed 3 by 3 field at pixel 5, where the displaced index 517 is clamped to
  8, and on a field with one cell set at pixel 4, where the displaced index -508 is
  clamped to 0.
\<close>

theorem sample_index_clamped_witness:
  "reload 3 (heap poked33 0) 5 = 517 \<and> finalIdx 3 9 (heap poked33 0) 5 = 8
   \<and> reload 3 (map fround [Fin 0, Fin 0, Fin 0, Fin 0, Fin 0, Fin 512, Fin 0, Fin 0, Fin 0]) 4
       = - 508
   \<and> finalIdx 3 9 (map fround [Fin 0, Fin 0, Fin 0, Fin 0, Fin 0, Fin 512, Fin 0, Fin 0, Fin 0]) 4
       = 0
   \<and> render_pixel 3 9 (heap poked33 0) image33 (replicate 36 0) 5 =
       put_pixel (replicate 36 0) 5 image33 8"
proof -
  have r1: "reload 3 (heap poked33 0) 5 = 517"
    by (simp add: reload_def poked33_offsets)
  have r2: "reload 3 (map fround [Fin 0, Fin 0, Fin 0, Fin 0, Fin 0, Fin 512, Fin 0, Fin 0, Fin 0]) 4
      = - 508"
    by (simp add: reload_def xOffset_def yOffset_def f32_get_def js_sub_def
        wrap32_def js_trunc_def)
  show ?thesis
    using sample_index_clamped [of 5 9 3 "heap poked33 0" image33 "replicate 36 0"]
      sample_index_clamped [of 4 9 3
        "map fround [Fin 0, Fin 0, Fin 0, Fin 0, Fin 0, Fin 512, Fin 0, Fin 0, Fin 0]"]
      r1 r2 poked33_offsets(4)
    by simp
qed

lemma update_pixel:
  assumes "rippleData st = Some rd" and "buffer1 rd \<noteq> buffer2 rd"
    and "0 < width" and "0 < height" and "0 \<le> i" and "i < width * height"
    and "k = sample_index width (width * height) (heap st (buffer1 rd)) i"
  shows "\<exists>out. snd (update width height viscosity speed imgData st) = Some out
    \<and> length out = nat (4 * (width * height))
    \<and> u8_get out (i * 4) = u8_get imgData (k * 4)
    \<and> u8_get out (i * 4 + 1) = u8_get imgData (k * 4 + 1)
    \<and> u8_get out (i * 4 + 2) = u8_get imgData (k * 4 + 2)
    \<and> u8_get out (i * 4 + 3) = 255"
proof -
  let ?out = "render width height (heap st (buffer1 rd)) imgData"
  have "snd (update width height viscosity speed imgData st) = Some ?out"
    using assms by (simp add: update_output)
  moreover have "length ?out = nat (4 * (width * height))"
    using assms by (simp add: render_def length_createImageData)
  moreover have "u8_get ?out (i * 4) = u8_get imgData (k * 4)"
    using render_get [of width height i 0 "heap st (buffer1 rd)" imgData] assms by simp
  moreover have "u8_get ?out (i * 4 + 1) = u8_get imgData (k * 4 + 1)"
    using render_get [of width height i 1 "heap st (buffer1 rd)" imgData] assms by simp
  moreover have "u8_get ?out (i * 4 + 2) = u8_get imgData (k * 4 + 2)"
    using render_get [of width height i 2 "heap st (buffer1 rd)" imgData] assms by simp
  moreover have "u8_get ?out (i * 4 + 3) = 255"
    using render_get [of width height i 3 "heap st (buffer1 rd)" imgData] assms by simp
  ultimately show ?thesis by blast
qed

text \<open>
  The numbers of the field \<open>graded33\<close>: 0.5, 3 and \<open>2^-60\<close> are binary32 numbers;
  \<open>0.5 - 3\<close> is \<open>-2.5\<close>, and \<open>3 - 2^-60\<close> is 3 in binary64. The number
  \<open>2^31\<close> is a binary32 number too.
\<close>

lemma binary32_half: "binary32 (1 / 2) = Fin (1 / 2)"
  unfolding binary32_def
  by (subst round_to_neg [where m = 1]) (simp_all add: round_even_def Let_def)

lemma binary32_tiny: "binary32 (1 / 1152921504606846976) = Fin (1 / 1152921504606846976)"
  unfolding binary32_def
  by (subst round_to_neg [where m = 60]) (simp_all add: round_even_def Let_def)

lemma binary32_2p31: "binary32 2147483648 = Fin 2147483648"
  unfolding binary32_def
  by (subst round_to_big [where e = 31]) simp_all

lemma diff_half_3: "js_sub (Fin (1 / 2)) (Fin 3) = Fin (- (5 / 2))"
  unfolding js_sub_def js_neg.simps js_add.simps binary64_def
  by (subst round_to_pos [where e = 1]) (simp_all add: round_even_def Let_def)

lemma diff_3_tiny: "js_sub (Fin 3) (Fin (1 / 1152921504606846976)) = Fin 3"
  unfolding js_sub_def js_neg.simps js_add.simps binary64_def
  by (subst round_to_pos [where e = 1]) (simp_all add: round_even_def Let_def)

lemma render_dims33: "(0::int) < 3" "(0::int) < 3"
  by simp_all

lemma graded33_rd: "rippleData graded33 = Some \<lparr>buffer1 = 0, buffer2 = 1\<rparr>"
  by (simp add: graded33_def)

lemma graded33_reached:
  "handleMouseMove 3 3 1 (Fin (1 / 1152921504606846976)) 0 2
     (handleMouseMove 3 3 1 (Fin (1 / 2)) 0 0 (handleMouseMove 3 3 1 (Fin 3) 2 0 fresh33))
   = graded33"
  by (simp add: handleMouseMove_def fresh33_def graded33_def inject_rows.simps inject_row.simps
      f32_set_def fun_eq_iff numeral_eq_Suc)

lemma graded33_cells:
  "f32_get (heap graded33 0) 0 = Fin (1 / 2)" "f32_get (heap graded33 0) 1 = Fin 3"
  "f32_get (heap graded33 0) 2 = Fin 3"
  "f32_get (heap graded33 0) 3 = Fin (1 / 1152921504606846976)"
  by (simp_all add: graded33_def f32_get_def binary32_half binary32_tiny)

lemma graded33_offsets:
  "xOffset (heap graded33 0) 1 = - 2" "yOffset 3 (heap graded33 0) 1 = 0"
  "xOffset (heap graded33 0) 2 = 3" "yOffset 3 (heap graded33 0) 2 = 0"
  by (simp_all add: xOffset_def yOffset_def graded33_cells diff_half_3 diff_3_tiny wrap32_def
      js_trunc_def)

text \<open>
  C2, as the code has it. \<open>C\<close> is the array that is \<^verbatim>\<open>buffer1\<close> when the frame
  begins: the one the solver step reads. The frame does not modify it, and after the
  frame's swap it is the array that \<^verbatim>\<open>buffer2\<close> refers to. The frame's output
  holds, at pixel \<open>i\<close>, the three colour bytes of the source image at pixel \<open>k\<close> and
  the alpha byte 255, where \<open>k\<close> is \<open>i\<close> if both offsets are zero and the clamped
  displaced index otherwise.
  The offsets are \<^verbatim>\<open>~~\<close> of the two differences \<open>dx\<close> and \<open>dy\<close>, which are
  JavaScript numbers: the difference of two finite cells rounded to binary64. An offset
  is the difference truncated toward zero when that is finite and below \<open>2^31\<close> in
  magnitude (the integer of the same sign and of the largest magnitude not above the
  difference's), and 0 when it is NaN or infinite, as it is when a neighbour index lies
  outside the array.
\<close>

theorem render_output:
  assumes "rippleData st = Some rd" and "buffer1 rd \<noteq> buffer2 rd"
    and "0 < width" and "0 < height" and "0 \<le> i" and "i < width * height"
    and "C = heap st (buffer1 rd)"
    and "dx = js_sub (f32_get C (i - 1)) (f32_get C (i + 1))"
    and "dy = js_sub (f32_get C (i - width)) (f32_get C (i + width))"
    and "k = (if xOffset C i = 0 \<and> yOffset width C i = 0 then i
              else max 0 (min (width * height - 1) (i + xOffset C i + yOffset width C i * width)))"
  shows "(\<exists>out. snd (update width height viscosity speed imgData st) = Some out
      \<and> length out = nat (4 * (width * height))
      \<and> u8_get out (i * 4) = u8_get imgData (k * 4)
      \<and> u8_get out (i * 4 + 1) = u8_get imgData (k * 4 + 1)
      \<and> u8_get out (i * 4 + 2) = u8_get imgData (k * 4 + 2)
      \<and> u8_get out (i * 4 + 3) = 255)
    \<and> 0 \<le> k \<and> k < width * height
    \<and> heap (fst (update width height viscosity speed imgData st)) (buffer1 rd) = C
    \<and> map_option buffer2 (rippleData (fst (update width height viscosity speed imgData st)))
        = Some (buffer1 rd)
    \<and> xOffset C i = to_int32 dx
    \<and> yOffset width C i = to_int32 dy
    \<and> (\<forall>a b. f32_get C (i - 1) = Fin a \<and> f32_get C (i + 1) = Fin b \<longrightarrow> dx = binary64 (a - b))
    \<and> (\<forall>a b. f32_get C (i - width) = Fin a \<and> f32_get C (i + width) = Fin b
          \<longrightarrow> dy = binary64 (a - b))
    \<and> (\<forall>d. dx = Fin d \<and> \<bar>d\<bar> < 2 ^ 31 \<longrightarrow>
          xOffset C i = js_trunc d
          \<and> \<bar>real_of_int (xOffset C i)\<bar> \<le> \<bar>d\<bar> \<and> \<bar>d\<bar> < \<bar>real_of_int (xOffset C i)\<bar> + 1
          \<and> 0 \<le> real_of_int (xOffset C i) * d)
    \<and> (\<forall>d. dy = Fin d \<and> \<bar>d\<bar> < 2 ^ 31 \<longrightarrow>
          yOffset width C i = js_trunc d
          \<and> \<bar>real_of_int (yOffset width C i)\<bar> \<le> \<bar>d\<bar>
          \<and> \<bar>d\<bar> < \<bar>real_of_int (yOffset width C i)\<bar> + 1
          \<and> 0 \<le> real_of_int (yOffset width C i) * d)
    \<and> (\<not> is_finite dx \<longrightarrow> xOffset C i = 0)
    \<and> (\<not> is_finite dy \<longrightarrow> yOffset width C i = 0)"
proof -
  have k: "k = sample_index width (width * height) (heap st (buffer1 rd)) i"
    using assms by (auto simp: sample_index_def finalIdx_def reload_def)
  have nf: "\<not> is_finite v \<Longrightarrow> to_int32 v = 0" for v
    by (cases v) simp_all
  have x: "xOffset C i = to_int32 dx" and y: "yOffset width C i = to_int32 dy"
    using assms(8,9) by (simp_all add: xOffset_def yOffset_def)
  have kr: "0 \<le> k" "k < width * height"
    unfolding k using assms sample_index_range by simp_all
  have ax: "\<forall>a b. f32_get C (i - 1) = Fin a \<and> f32_get C (i + 1) = Fin b
      \<longrightarrow> dx = binary64 (a - b)"
    using assms(8) by (simp add: js_sub_def)
  have ay: "\<forall>a b. f32_get C (i - width) = Fin a \<and> f32_get C (i + width) = Fin b
      \<longrightarrow> dy = binary64 (a - b)"
    using assms(9) by (simp add: js_sub_def)
  have cx: "\<forall>d. dx = Fin d \<and> \<bar>d\<bar> < 2 ^ 31 \<longrightarrow>
          xOffset C i = js_trunc d
          \<and> \<bar>real_of_int (xOffset C i)\<bar> \<le> \<bar>d\<bar> \<and> \<bar>d\<bar> < \<bar>real_of_int (xOffset C i)\<bar> + 1
          \<and> 0 \<le> real_of_int (xOffset C i) * d"
  proof (intro allI impI)
    fix d assume "dx = Fin d \<and> \<bar>d\<bar> < 2 ^ 31"
    then have "xOffset C i = js_trunc d"
      by (simp add: x wrap32_trunc)
    then show "xOffset C i = js_trunc d
          \<and> \<bar>real_of_int (xOffset C i)\<bar> \<le> \<bar>d\<bar> \<and> \<bar>d\<bar> < \<bar>real_of_int (xOffset C i)\<bar> + 1
          \<and> 0 \<le> real_of_int (xOffset C i) * d"
      using js_trunc_toward_zero [of d] by simp
  qed
  have cy: "\<forall>d. dy = Fin d \<and> \<bar>d\<bar> < 2 ^ 31 \<longrightarrow>
          yOffset width C i = js_trunc d
          \<and> \<bar>real_of_int (yOffset width C i)\<bar> \<le> \<bar>d\<bar>
          \<and> \<bar>d\<bar> < \<bar>real_of_int (yOffset width C i)\<bar> + 1
          \<and> 0 \<le> real_of_int (yOffset width C i) * d"
  proof (intro allI impI)
    fix d assume "dy = Fin d \<and> \<bar>d\<bar> < 2 ^ 31"
    then have "yOffset width C i = js_trunc d"
      by (simp add: y wrap32_trunc)
    then show "yOffset width C i = js_trunc d
          \<and> \<bar>real_of_int (yOffset width C i)\<bar> \<le> \<bar>d\<bar>
          \<and> \<bar>d\<bar> < \<bar>real_of_int (yOffset width C i)\<bar> + 1
          \<and> 0 \<le> real_of_int (yOffset width C i) * d"
      using js_trunc_toward_zero [of d] by simp
  qed
  have nx: "\<not> is_finite dx \<longrightarrow> xOffset C i = 0"
    and ny: "\<not> is_finite dy \<longrightarrow> yOffset width C i = 0"
    using nf by (simp_all add: x y)
  have h: "heap (fst (update width height viscosity speed imgData st)) (buffer1 rd) = C"
    using update_state(3) [OF assms(1,2)] assms(7) by simp
  note p = update_pixel [OF assms(1-6) k, of viscosity speed imgData]
  note m = update_state(1) [OF assms(1,2), of width height viscosity speed imgData]
  from p kr h m x y ax ay cx cy nx ny show ?thesis
    by (intro conjI)
qed


text \<open>
  C2 as amended, on the disturbed 3 by 3 field at pixel 5, where the offsets are 512 and
  0 and the output pixel carries the colour of source pixel 8, and on the field
  \<open>graded33\<close>: at pixel 1 the difference is \<open>-2.5\<close>, the offset \<open>-2\<close> and the
  colour that of source pixel 0; at pixel 2 the difference \<open>3 - 2^-60\<close> is the number
  3, the offset 3 and the colour that of source pixel 5.
\<close>
theorem render_output_witness:
  "(\<exists>out. snd (update 3 3 (binary64 (1 / 25)) (Fin 2) image33 poked33) = Some out
      \<and> length out = 36
      \<and> u8_get out 20 = 32 \<and> u8_get out 21 = 33 \<and> u8_get out 22 = 34 \<and> u8_get out 23 = 255)
   \<and> xOffset (heap poked33 0) 5 = 512 \<and> yOffset 3 (heap poked33 0) 5 = 0
   \<and> js_sub (f32_get (heap graded33 0) 0) (f32_get (heap graded33 0) 2) = Fin (- (5 / 2))
   \<and> xOffset (heap graded33 0) 1 = - 2
   \<and> (\<exists>out. snd (update 3 3 (binary64 (1 / 25)) (Fin 2) image33 graded33) = Some out
      \<and> length out = 36
      \<and> u8_get out 4 = 0 \<and> u8_get out 5 = 1 \<and> u8_get out 6 = 2 \<and> u8_get out 7 = 255)
   \<and> js_sub (f32_get (heap graded33 0) 1) (f32_get (heap graded33 0) 3) = Fin 3
   \<and> xOffset (heap graded33 0) 2 = 3
   \<and> (\<exists>out. snd (update 3 3 (binary64 (1 / 25)) (Fin 2) image33 graded33) = Some out
      \<and> length out = 36
      \<and> u8_get out 8 = 20 \<and> u8_get out 9 = 21 \<and> u8_get out 10 = 22 \<and> u8_get out 11 = 255)"
proof -
  have cp: "heap poked33 0 = heap poked33 (buffer1 \<lparr>buffer1 = 0, buffer2 = 1\<rparr>)"
    and cg: "heap graded33 0 = heap graded33 (buffer1 \<lparr>buffer1 = 0, buffer2 = 1\<rparr>)"
    by simp_all
  have k5: "8 = (if xOffset (heap poked33 0) 5 = 0 \<and> yOffset 3 (heap poked33 0) 5 = 0 then 5
      else max 0 (min (3 * 3 - 1)
        (5 + xOffset (heap poked33 0) 5 + yOffset 3 (heap poked33 0) 5 * 3)))"
    by (simp add: poked33_offsets)
  have k1: "0 = (if xOffset (heap graded33 0) 1 = 0 \<and> yOffset 3 (heap graded33 0) 1 = 0 then 1
      else max 0 (min (3 * 3 - 1)
        (1 + xOffset (heap graded33 0) 1 + yOffset 3 (heap graded33 0) 1 * 3)))"
    by (simp add: graded33_offsets)
  have k2: "5 = (if xOffset (heap graded33 0) 2 = 0 \<and> yOffset 3 (heap graded33 0) 2 = 0 then 2
      else max 0 (min (3 * 3 - 1)
        (2 + xOffset (heap graded33 0) 2 + yOffset 3 (heap graded33 0) 2 * 3)))"
    by (simp add: graded33_offsets)
  have i5: "(0::int) \<le> 5" "(5::int) < 3 * 3" and i1: "(0::int) \<le> 1" "(1::int) < 3 * 3"
    and i2: "(0::int) \<le> 2" "(2::int) < 3 * 3"
    by simp_all
  have p5: "\<exists>out. snd (update 3 3 (binary64 (1 / 25)) (Fin 2) image33 poked33) = Some out
      \<and> length out = 36
      \<and> u8_get out 20 = 32 \<and> u8_get out 21 = 33 \<and> u8_get out 22 = 34 \<and> u8_get out 23 = 255"
    using render_output [OF poked33_rd _ render_dims33 i5 cp refl refl k5,
        of "binary64 (1 / 25)" "Fin 2" image33]
    by (simp add: image33_bytes)
  have p1: "\<exists>out. snd (update 3 3 (binary64 (1 / 25)) (Fin 2) image33 graded33) = Some out
      \<and> length out = 36
      \<and> u8_get out 4 = 0 \<and> u8_get out 5 = 1 \<and> u8_get out 6 = 2 \<and> u8_get out 7 = 255"
    using render_output [OF graded33_rd _ render_dims33 i1 cg refl refl k1,
        of "binary64 (1 / 25)" "Fin 2" image33]
    by (simp add: image33_bytes)
  have p2: "\<exists>out. snd (update 3 3 (binary64 (1 / 25)) (Fin 2) image33 graded33) = Some out
      \<and> length out = 36
      \<and> u8_get out 8 = 20 \<and> u8_get out 9 = 21 \<and> u8_get out 10 = 22 \<and> u8_get out 11 = 255"
    using render_output [OF graded33_rd _ render_dims33 i2 cg refl refl k2,
        of "binary64 (1 / 25)" "Fin 2" image33]
    by (simp add: image33_bytes)
  have d1: "js_sub (f32_get (heap graded33 0) 0) (f32_get (heap graded33 0) 2) = Fin (- (5 / 2))"
    by (simp only: graded33_cells diff_half_3)
  have d2: "js_sub (f32_get (heap graded33 0) 1) (f32_get (heap graded33 0) 3) = Fin 3"
    by (simp only: graded33_cells diff_3_tiny)
  from p5 poked33_offsets(4,5) d1 graded33_offsets(1) p1 d2 graded33_offsets(3) p2
  show ?thesis by (intro conjI)
qed

text \<open>
  The fresh 3 by 3 field after a pointer move to \<open>(1, 1)\<close> with \<open>rippleSize = 1\<close>
  and \<open>strength = 2147483648\<close>, and the image rendered from it.
\<close>

lemma big33:
  "map val (heap (handleMouseMove 3 3 1 (Fin 2147483648) 1 1 fresh33) 0) =
     [Fin 2147483648, Fin 2147483648, Fin 0, Fin 2147483648, Fin 2147483648, Fin 0,
      Fin 0, Fin 0, Fin 0]"
  "heap (handleMouseMove 3 3 1 (Fin 2147483648) 1 1 fresh33) 0 =
     map fround [Fin 2147483648, Fin 2147483648, Fin 0, Fin 2147483648, Fin 2147483648, Fin 0,
      Fin 0, Fin 0, Fin 0]"
  "rippleData (handleMouseMove 3 3 1 (Fin 2147483648) 1 1 fresh33) =
     Some \<lparr>buffer1 = 0, buffer2 = 1\<rparr>"
  by (simp_all add: handleMouseMove_def fresh33_def inject_rows.simps inject_row.simps
      f32_set_def numeral_eq_Suc binary32_2p31)

lemma big33_render:
  "render 3 3
     (map fround [Fin 2147483648, Fin 2147483648, Fin 0, Fin 2147483648, Fin 2147483648, Fin 0,
        Fin 0, Fin 0, Fin 0]) image33 =
     [0, 1, 2, 255, 0, 1, 2, 255, 8, 9, 10, 255, 0, 1, 2, 255, 0, 1, 2, 255,
      0, 1, 2, 255, 24, 25, 26, 255, 28, 29, 30, 255, 32, 33, 34, 255]"
  by (simp add: render_def createImageData_def render_loop.simps render_pixel_def put_pixel_def
      u8_set_def u8_get_def image33_def xOffset_def yOffset_def f32_get_def binary32_2p31
      js_sub_def wrap32_def js_trunc_def finalIdx_def reload_def numeral_eq_Suc)

text \<open>
  C2, as stated, fails for a difference of magnitude \<open>2^31\<close> or more. A pointer move
  with \<open>strength = 2147483648\<close> on the fresh 3 by 3 field makes the difference at
  pixel 5 equal to \<open>2147483648\<close>. Truncation toward zero leaves that number, and the
  clamped displaced index would be 8; \<^verbatim>\<open>~~\<close> yields \<open>-2147483648\<close>, the index is
  clamped to 0, and the output pixel 5 carries the colour of source pixel 0.
  Nor is \<open>C\<close> the array that is current once the frame has swapped: after a frame on
  the disturbed 3 by 3 field the current array is the one at address 1, whose offsets at
  pixel 1 are both 0, yet the output pixel 1 carries the colour of source pixel 8, as
  the offset 512 of the array at address 0 demands.
\<close>

theorem offset_wraps_beyond_int32:
  "map val (heap (handleMouseMove 3 3 1 (Fin 2147483648) 1 1 fresh33) 0) =
     [Fin 2147483648, Fin 2147483648, Fin 0, Fin 2147483648, Fin 2147483648, Fin 0,
      Fin 0, Fin 0, Fin 0]
   \<and> js_sub (Fin 2147483648) (Fin 0) = Fin 2147483648
   \<and> js_trunc (2147483648 - 0) = 2147483648
   \<and> xOffset (heap (handleMouseMove 3 3 1 (Fin 2147483648) 1 1 fresh33) 0) 5 = - 2147483648
   \<and> yOffset 3 (heap (handleMouseMove 3 3 1 (Fin 2147483648) 1 1 fresh33) 0) 5 = 0
   \<and> max 0 (min (3 * 3 - 1) (5 + js_trunc (2147483648 - 0) + 0 * 3)) = (8::int)
   \<and> snd (update 3 3 (binary64 (1 / 25)) (Fin 2) image33
            (handleMouseMove 3 3 1 (Fin 2147483648) 1 1 fresh33)) =
       Some [0, 1, 2, 255, 0, 1, 2, 255, 8, 9, 10, 255, 0, 1, 2, 255, 0, 1, 2, 255,
             0, 1, 2, 255, 24, 25, 26, 255, 28, 29, 30, 255, 32, 33, 34, 255]
   \<and> map_option buffer1
        (rippleData (fst (update 3 3 (binary64 (1 / 25)) (Fin 2) image33 poked33))) = Some 1
   \<and> xOffset (heap (fst (update 3 3 (binary64 (1 / 25)) (Fin 2) image33 poked33)) 1) 1 = 0
   \<and> yOffset 3 (heap (fst (update 3 3 (binary64 (1 / 25)) (Fin 2) image33 poked33)) 1) 1 = 0
   \<and> xOffset (heap poked33 0) 1 = 512
   \<and> snd (update 3 3 (binary64 (1 / 25)) (Fin 2) image33 poked33) =
       Some [0, 1, 2, 255, 32, 33, 34, 255, 8, 9, 10, 255, 32, 33, 34, 255, 32, 33, 34, 255,
             32, 33, 34, 255, 24, 25, 26, 255, 28, 29, 30, 255, 32, 33, 34, 255]"
proof -
  have ne: "buffer1 \<lparr>buffer1 = 0, buffer2 = 1\<rparr> \<noteq> buffer2 \<lparr>buffer1 = 0, buffer2 = 1::nat\<rparr>"
    by simp
  have a: "js_sub (Fin 2147483648) (Fin 0) = Fin 2147483648"
    by (simp add: js_sub_def)
  have b: "js_trunc (2147483648 - 0) = 2147483648"
    by (simp add: js_trunc_def)
  have x: "xOffset (heap (handleMouseMove 3 3 1 (Fin 2147483648) 1 1 fresh33) 0) 5 = - 2147483648"
    and y: "yOffset 3 (heap (handleMouseMove 3 3 1 (Fin 2147483648) 1 1 fresh33) 0) 5 = 0"
    unfolding big33(2)
    by (simp_all add: xOffset_def yOffset_def f32_get_def binary32_2p31 js_sub_def wrap32_def
        js_trunc_def)
  have c: "max 0 (min (3 * 3 - 1) (5 + js_trunc (2147483648 - 0) + 0 * 3)) = (8::int)"
    by (simp add: js_trunc_def)
  have o: "snd (update 3 3 (binary64 (1 / 25)) (Fin 2) image33
            (handleMouseMove 3 3 1 (Fin 2147483648) 1 1 fresh33)) =
       Some [0, 1, 2, 255, 0, 1, 2, 255, 8, 9, 10, 255, 0, 1, 2, 255, 0, 1, 2, 255,
             0, 1, 2, 255, 24, 25, 26, 255, 28, 29, 30, 255, 32, 33, 34, 255]"
    using update_output [OF big33(3) ne, of 3 3 "binary64 (1 / 25)" "Fin 2" image33]
    by (simp only: ripple_data.simps big33(2) big33_render)
  have m: "map_option buffer1
        (rippleData (fst (update 3 3 (binary64 (1 / 25)) (Fin 2) image33 poked33))) = Some 1"
    using update_state(2) [OF poked33_rd ne, of 3 3 "binary64 (1 / 25)" "Fin 2" image33]
    by simp
  have cells: "f32_get (heap (fst (update 3 3 (binary64 (1 / 25)) (Fin 2) image33 poked33)) 1) 0
        = Fin 0"
      "f32_get (heap (fst (update 3 3 (binary64 (1 / 25)) (Fin 2) image33 poked33)) 1) 2
        = Fin 0"
    using update_border [OF poked33_rd ne, of 0 3 3 "binary64 (1 / 25)" "Fin 2" image33]
      update_border [OF poked33_rd ne, of 2 3 3 "binary64 (1 / 25)" "Fin 2" image33]
    by (simp_all add: poked33_def f32_get_def)
  have nx: "xOffset (heap (fst (update 3 3 (binary64 (1 / 25)) (Fin 2) image33 poked33)) 1) 1 = 0"
    using cells by (simp add: xOffset_def to_int32_sub_self)
  have ny: "yOffset 3 (heap (fst (update 3 3 (binary64 (1 / 25)) (Fin 2) image33 poked33)) 1) 1 = 0"
    by (simp add: yOffset_def)
  have po: "snd (update 3 3 (binary64 (1 / 25)) (Fin 2) image33 poked33) =
       Some [0, 1, 2, 255, 32, 33, 34, 255, 8, 9, 10, 255, 32, 33, 34, 255, 32, 33, 34, 255,
             32, 33, 34, 255, 24, 25, 26, 255, 28, 29, 30, 255, 32, 33, 34, 255]"
    using update_output [OF poked33_rd ne, of 3 3 "binary64 (1 / 25)" "Fin 2" image33]
    by (simp add: poked33_render)
  from big33(1) a b x y c o m nx ny poked33_offsets(3) po show ?thesis
    by (intro conjI)
qed

text \<open>
  C6, as stated, fails. On the 3 by 3 field, a pointer move to \<open>(1, 1)\<close> with
  \<open>rippleSize = 1\<close> writes cells of the top row; at pixel 1 of the top row the
  horizontal offset is then 512, and the output pixel 1 carries the colour of source
  pixel 8, not of source pixel 1.
\<close>

theorem border_row_offset_nonzero:
  "create 4294967296 3 3 = Inr fresh33
   \<and> map val (heap (handleMouseMove 3 3 1 (Fin 512) 1 1 fresh33) 0) =
       [Fin 512, Fin 512, Fin 0, Fin 512, Fin 512, Fin 0, Fin 0, Fin 0, Fin 0]
   \<and> xOffset (heap (handleMouseMove 3 3 1 (Fin 512) 1 1 fresh33) 0) 1 = 512
   \<and> snd (update 3 3 (binary64 (1 / 25)) (Fin 2) image33
        (handleMouseMove 3 3 1 (Fin 512) 1 1 fresh33)) =
       Some [0, 1, 2, 255, 32, 33, 34, 255, 8, 9, 10, 255, 32, 33, 34, 255, 32, 33, 34, 255,
             32, 33, 34, 255, 24, 25, 26, 255, 28, 29, 30, 255, 32, 33, 34, 255]"
proof -
  have ne: "buffer1 \<lparr>buffer1 = 0, buffer2 = 1\<rparr> \<noteq> buffer2 \<lparr>buffer1 = 0, buffer2 = 1::nat\<rparr>"
    by simp
  have c: "create 4294967296 3 3 = Inr fresh33"
    by (simp add: create_def new_Float32Array_def fresh33_def)
  have po: "snd (update 3 3 (binary64 (1 / 25)) (Fin 2) image33 poked33) =
       Some [0, 1, 2, 255, 32, 33, 34, 255, 8, 9, 10, 255, 32, 33, 34, 255, 32, 33, 34, 255,
             32, 33, 34, 255, 24, 25, 26, 255, 28, 29, 30, 255, 32, 33, 34, 255]"
    using update_output [OF poked33_rd ne, of 3 3 "binary64 (1 / 25)" "Fin 2" image33]
    by (simp add: poked33_render)
  from c poked33_vals poked33_offsets(3) po show ?thesis
    unfolding poke33 by (intro conjI)
qed

text \<open>
  C6, as the code has it. For a pixel \<open>i\<close> of the top or the bottom row, the vertical
  neighbour above or below lies outside the array, so the vertical difference is NaN and
  \<open>yOffset\<close> is 0. \<open>xOffset\<close> is computed from the row's own cells as anywhere
  else: it is 0 at the first and the last index of the array and wherever the two
  horizontal neighbours hold the same value. Where it is 0, the output pixel is the
  source pixel at the same index with alpha 255.
\<close>

theorem border_row_offsets:
  assumes "rippleData st = Some rd" and "buffer1 rd \<noteq> buffer2 rd"
    and "0 < width" and "0 < height" and "0 \<le> i" and "i < width * height"
    and "i < width \<or> width * height - width \<le> i"
    and "C = heap st (buffer1 rd)"
    and "length C = nat (width * height)"
  shows "yOffset width C i = 0
    \<and> (i = 0 \<or> i = width * height - 1 \<or> f32_get C (i - 1) = f32_get C (i + 1)
          \<longrightarrow> xOffset C i = 0)
    \<and> (xOffset C i = 0 \<longrightarrow>
        (\<exists>out. snd (update width height viscosity speed imgData st) = Some out
          \<and> u8_get out (i * 4) = u8_get imgData (i * 4)
          \<and> u8_get out (i * 4 + 1) = u8_get imgData (i * 4 + 1)
          \<and> u8_get out (i * 4 + 2) = u8_get imgData (i * 4 + 2)
          \<and> u8_get out (i * 4 + 3) = 255))"
proof -
  have y: "yOffset width C i = 0"
    using assms by (auto simp: yOffset_def)
  have x: "i = 0 \<or> i = width * height - 1 \<or> f32_get C (i - 1) = f32_get C (i + 1)
      \<longrightarrow> xOffset C i = 0"
    using assms by (auto simp: xOffset_def to_int32_sub_self)
  have "xOffset C i = 0 \<longrightarrow>
        (\<exists>out. snd (update width height viscosity speed imgData st) = Some out
          \<and> u8_get out (i * 4) = u8_get imgData (i * 4)
          \<and> u8_get out (i * 4 + 1) = u8_get imgData (i * 4 + 1)
          \<and> u8_get out (i * 4 + 2) = u8_get imgData (i * 4 + 2)
          \<and> u8_get out (i * 4 + 3) = 255)"
  proof
    assume "xOffset C i = 0"
    with y assms have "i = sample_index width (width * height) (heap st (buffer1 rd)) i"
      by (simp add: sample_index_def)
    from update_pixel [OF assms(1-6) this, of viscosity speed imgData]
    show "\<exists>out. snd (update width height viscosity speed imgData st) = Some out
          \<and> u8_get out (i * 4) = u8_get imgData (i * 4)
          \<and> u8_get out (i * 4 + 1) = u8_get imgData (i * 4 + 1)
          \<and> u8_get out (i * 4 + 2) = u8_get imgData (i * 4 + 2)
          \<and> u8_get out (i * 4 + 3) = 255"
      by blast
  qed
  with x y show ?thesis by blast
qed

text \<open>
  C6 as amended, on the disturbed 3 by 3 field at pixel 0 of the top row and pixel 7 of
  the bottom row.
\<close>

theorem border_row_offsets_witness:
  "yOffset 3 (heap poked33 0) 0 = 0 \<and> xOffset (heap poked33 0) 0 = 0
   \<and> yOffset 3 (heap poked33 0) 7 = 0 \<and> xOffset (heap poked33 0) 7 = 0
   \<and> (\<exists>out. snd (update 3 3 (binary64 (1 / 25)) (Fin 2) image33 poked33) = Some out
         \<and> u8_get out 28 = 28 \<and>  u8_get out 29 = 29 \<and> u8_get out 30 = 30 \<and> u8_get out 31 = 255)"
proof -
  have len: "length (heap poked33 0) = 9"
    by (simp add: poked33_def)
  have eq: "f32_get (heap poked33 0) (7 - 1) = f32_get (heap poked33 0) (7 + 1)"
    by (simp add: poked33_def f32_get_def)
  from border_row_offsets [of poked33 "\<lparr>buffer1 = 0, buffer2 = 1\<rparr>" 3 3 0 "heap poked33 0"
      "binary64 (1 / 25)" "Fin 2" image33]
    border_row_offsets [of poked33 "\<lparr>buffer1 = 0, buffer2 = 1\<rparr>" 3 3 7 "heap poked33 0"
      "binary64 (1 / 25)" "Fin 2" image33]
  show ?thesis
    using poked33_rd len eq image33_bytes by simp
qed

section \<open>The swap\<close>

text \<open>
  C8. Swapping twice restores the state; one swap exchanges the two references and
  leaves the heap, hence every element of both arrays, as it was.
\<close>

theorem swap_involution:
  "swap (swap st) = st \<and>
   heap (swap st) = heap st \<and>
   map_option buffer1 (rippleData (swap st)) = map_option buffer2 (rippleData st) \<and>
   map_option buffer2 (rippleData (swap st)) = map_option buffer1 (rippleData st)"
  by (cases "rippleData st") (simp_all add: swap_def Let_def)

section \<open>The disturbance\<close>

lemma length_inject_row [simp]:
  "length (inject_row width height strength j kend a k) = length a"
proof (induction width height strength j kend a k rule: inject_row.induct)
  case (1 width height strength j kend a k)
  show ?case
  proof (cases "k < kend")
    case True
    with 1 show ?thesis by (subst inject_row.simps) simp
  next
    case False
    then show ?thesis by (subst inject_row.simps) simp
  qed
qed

lemma inject_row_get:
  "f32_get (inject_row width height strength j kend a k) idx =
     (if 0 \<le> j \<and> j < height \<and> k \<le> idx - j * width \<and> idx - j * width < kend
         \<and> 0 \<le> idx - j * width \<and> idx - j * width < width
         \<and> 0 \<le> idx \<and> idx < int (length a)
      then to_f32 strength else f32_get a idx)"
proof (induction width height strength j kend a k rule: inject_row.induct)
  case (1 width height strength j kend a k)
  show ?case
  proof (cases "k < kend")
    case True
    let ?a = "if 0 \<le> j \<and> j < height \<and> 0 \<le> k \<and> k < width
              then f32_set a (j * width + k) strength else a"
    have unfold: "inject_row width height strength j kend a k =
        inject_row width height strength j kend ?a (k + 1)"
      using True by (subst inject_row.simps) simp
    have len: "length ?a = length a" by simp
    show ?thesis
      unfolding unfold "1.IH" [OF True] len
      using True by (auto simp: f32_get_set)
  next
    case False
    then show ?thesis by (subst inject_row.simps) auto
  qed
qed

lemma length_inject_rows [simp]:
  "length (inject_rows width height strength x rippleSize jend a j) = length a"
proof (induction width height strength x rippleSize jend a j rule: inject_rows.induct)
  case (1 width height strength x rippleSize jend a j)
  show ?case
  proof (cases "j < jend")
    case True
    with 1 show ?thesis by (subst inject_rows.simps) simp
  next
    case False
    then show ?thesis by (subst inject_rows.simps) simp
  qed
qed

lemma inject_rows_get:
  "f32_get (inject_rows width height strength x rippleSize jend a j) idx =
     (if (\<exists>j'. j \<le> j' \<and> j' < jend \<and> hit width height x rippleSize j' idx)
         \<and> 0 \<le> idx \<and> idx < int (length a)
      then to_f32 strength else f32_get a idx)"
proof (induction width height strength x rippleSize jend a j rule: inject_rows.induct)
  case (1 width height strength x rippleSize jend a j)
  show ?case
  proof (cases "j < jend")
    case True
    let ?a = "inject_row width height strength j (x + rippleSize) a (x - rippleSize)"
    have unfold: "inject_rows width height strength x rippleSize jend a j =
        inject_rows width height strength x rippleSize jend ?a (j + 1)"
      using True by (subst inject_rows.simps) simp
    have split: "(\<exists>j'. j \<le> j' \<and> j' < jend \<and> hit width height x rippleSize j' idx) \<longleftrightarrow>
        hit width height x rippleSize j idx
        \<or> (\<exists>j'. j + 1 \<le> j' \<and> j' < jend \<and> hit width height x rippleSize j' idx)"
    proof
      assume "\<exists>j'. j \<le> j' \<and> j' < jend \<and> hit width height x rippleSize j' idx"
      then obtain j' where j': "j \<le> j'" "j' < jend" "hit width height x rippleSize j' idx"
        by blast
      show "hit width height x rippleSize j idx
        \<or> (\<exists>j'. j + 1 \<le> j' \<and> j' < jend \<and> hit width height x rippleSize j' idx)"
      proof (cases "j' = j")
        case True
        with j' show ?thesis by simp
      next
        case False
        with j' have "j + 1 \<le> j'" by simp
        with j' show ?thesis by blast
      qed
    next
      assume "hit width height x rippleSize j idx
        \<or> (\<exists>j'. j + 1 \<le> j' \<and> j' < jend \<and> hit width height x rippleSize j' idx)"
      then show "\<exists>j'. j \<le> j' \<and> j' < jend \<and> hit width height x rippleSize j' idx"
      proof
        assume "hit width height x rippleSize j idx"
        with True show ?thesis by blast
      next
        assume "\<exists>j'. j + 1 \<le> j' \<and> j' < jend \<and> hit width height x rippleSize j' idx"
        then obtain j' where "j + 1 \<le> j'" "j' < jend" "hit width height x rippleSize j' idx"
          by blast
        then have "j \<le> j' \<and> j' < jend \<and> hit width height x rippleSize j' idx" by simp
        then show ?thesis by blast
      qed
    qed
    have row: "f32_get ?a idx =
        (if hit width height x rippleSize j idx \<and> 0 \<le> idx \<and> idx < int (length a)
         then to_f32 strength else f32_get a idx)"
      by (auto simp: inject_row_get hit_def)
    show ?thesis
      unfolding unfold "1.IH" [OF True] split row length_inject_row
      by auto
  next
    case False
    then show ?thesis by (subst inject_rows.simps) auto
  qed
qed

lemma cell_index_range:
  fixes cx cy width height :: int
  assumes "0 \<le> cx" "cx < width" "0 \<le> cy" "cy < height"
  shows "0 \<le> cy * width + cx" "cy * width + cx < width * height"
proof -
  have w: "0 < width" using assms by linarith
  show "0 \<le> cy * width + cx" using assms w by simp
  have "cy + 1 \<le> height" using assms by simp
  then have "(cy + 1) * width \<le> height * width"
    using w by (intro mult_right_mono) simp_all
  then show "cy * width + cx < width * height"
    using assms by (simp add: algebra_simps)
qed

lemma hit_cell:
  assumes "0 \<le> cx" "cx < width"
  shows "hit width height x rippleSize j (cy * width + cx) \<longleftrightarrow>
     j = cy \<and> 0 \<le> cy \<and> cy < height \<and> x - rippleSize \<le> cx \<and> cx < x + rippleSize"
proof
  assume h: "hit width height x rippleSize j (cy * width + cx)"
  have w: "0 < width" using assms by linarith
  have d: "cy * width + cx - j * width = (cy - j) * width + cx"
    by (simp add: algebra_simps)
  have lo: "0 \<le> (cy - j) * width + cx" and hi: "(cy - j) * width + cx < width"
    using h unfolding hit_def d by simp_all
  have "j = cy"
  proof (rule ccontr)
    assume "j \<noteq> cy"
    then consider "1 \<le> cy - j" | "cy - j \<le> - 1" by linarith
    then show False
    proof cases
      case 1
      then have "1 * width \<le> (cy - j) * width"
        using w by (intro mult_right_mono) simp_all
      with hi assms show False by simp
    next
      case 2
      then have "(cy - j) * width \<le> (- 1) * width"
        using w by (intro mult_right_mono) simp_all
      with lo assms show False by simp
    qed
  qed
  with h show "j = cy \<and> 0 \<le> cy \<and> cy < height \<and> x - rippleSize \<le> cx \<and> cx < x + rippleSize"
    by (simp add: hit_def)
next
  assume "j = cy \<and> 0 \<le> cy \<and> cy < height \<and> x - rippleSize \<le> cx \<and> cx < x + rippleSize"
  with assms show "hit width height x rippleSize j (cy * width + cx)"
    by (simp add: hit_def)
qed

lemma handleMouseMove_heap:
  "rippleData st = Some rd \<Longrightarrow>
   heap (handleMouseMove width height rippleSize strength x y st) =
     (heap st)(buffer1 rd :=
        inject_rows width height strength x rippleSize (y + rippleSize)
          (heap st (buffer1 rd)) (y - rippleSize))"
  by (simp add: handleMouseMove_def)

lemma handleMouseMove_rippleData [simp]:
  "rippleData (handleMouseMove width height rippleSize strength x y st) = rippleData st"
  by (cases "rippleData st") (simp_all add: handleMouseMove_def)

lemma inject_rows_outside:
  assumes "x + rippleSize \<le> 0 \<or> width \<le> x - rippleSize \<or> y + rippleSize \<le> 0
      \<or> height \<le> y - rippleSize"
  shows "inject_rows width height strength x rippleSize (y + rippleSize) a (y - rippleSize) = a"
proof (rule nth_equalityI)
  show "length (inject_rows width height strength x rippleSize (y + rippleSize) a (y - rippleSize))
      = length a"
    by simp
next
  fix n
  assume "n < length (inject_rows width height strength x rippleSize (y + rippleSize) a
      (y - rippleSize))"
  then have n: "n < length a" by simp
  have none: "\<not> (\<exists>j'. y - rippleSize \<le> j' \<and> j' < y + rippleSize
      \<and> hit width height x rippleSize j' (int n))"
    using assms by (auto simp: hit_def)
  have "f32_get (inject_rows width height strength x rippleSize (y + rippleSize) a
      (y - rippleSize)) (int n) = f32_get a (int n)"
    unfolding inject_rows_get using none by auto
  with n show "inject_rows width height strength x rippleSize (y + rippleSize) a
      (y - rippleSize) ! n = a ! n"
    by (simp add: f32_get_def val_inject)
qed


text \<open>
  What a cell of the grid holds after the handler ran: the strength as a binary32 number
  if the cell lies in the square, its old value otherwise.
\<close>

lemma handleMouseMove_cell:
  assumes "rippleData st = Some rd"
    and "length (heap st (buffer1 rd)) = nat (width * height)"
    and "0 \<le> cx" and "cx < width" and "0 \<le> cy" and "cy < height"
  shows "f32_get (heap (handleMouseMove width height rippleSize strength x y st) (buffer1 rd))
        (cy * width + cx) =
      (if y - rippleSize \<le> cy \<and> cy < y + rippleSize \<and> x - rippleSize \<le> cx \<and> cx < x + rippleSize
       then to_f32 strength else f32_get (heap st (buffer1 rd)) (cy * width + cx))"
proof -
  have rng: "0 \<le> cy * width + cx" "cy * width + cx < int (length (heap st (buffer1 rd)))"
    using cell_index_range [of cx width cy height] assms by simp_all
  have ex: "(\<exists>j'. y - rippleSize \<le> j' \<and> j' < y + rippleSize
        \<and> hit width height x rippleSize j' (cy * width + cx)) \<longleftrightarrow>
      y - rippleSize \<le> cy \<and> cy < y + rippleSize \<and> x - rippleSize \<le> cx \<and> cx < x + rippleSize"
    using assms by (auto simp: hit_cell)
  show ?thesis
    using assms(1) rng by (simp add: handleMouseMove_heap inject_rows_get ex)
qed

text \<open>
  A number of magnitude \<open>2^(emax + 1)\<close> or more is beyond the format and rounds to an
  infinity. The numbers of the examples: the literal \<^verbatim>\<open>0.1\<close> is a binary64 number
  that is not a binary32 number, and \<open>2^130\<close> is beyond binary32.
\<close>

lemma round_to_overflow:
  assumes "2 powi (emax + 1) \<le> x" "emin \<le> emax" "1 \<le> p"
  shows "round_to p emin emax x = PInf"
proof -
  have x: "0 < x"
    using assms(1) zero_less_power_int [of "2::real" "emax + 1"] by linarith
  then have ax: "\<bar>x\<bar> = x" by simp
  note b = ilog2_bounds [OF x]
  have e1: "emax + 1 \<le> ilog2 x"
  proof (rule ccontr)
    assume "\<not> emax + 1 \<le> ilog2 x"
    then have "(2::real) powi (ilog2 x + 1) \<le> 2 powi (emax + 1)"
      by (intro power_int_increasing) simp_all
    with b(2) assms(1) show False by linarith
  qed
  then have e: "max (ilog2 x) emin = ilog2 x"
    using assms(2) by simp
  define q :: real where "q = 2 powi (ilog2 x - p + 1)"
  have q: "0 < q" by (simp add: q_def zero_less_power_int)
  have "ilog2 x = (ilog2 x - p + 1) + (p - 1)" by simp
  then have "(2::real) powi (ilog2 x) = 2 powi (ilog2 x - p + 1) * 2 powi (p - 1)"
    by (metis power_int_add zero_neq_numeral)
  then have s: "(2::real) powi (ilog2 x) = of_int (2 ^ nat (p - 1)) * q"
    using assms(3) by (simp add: q_def powi_nonneg_int)
  have "of_int (2 ^ nat (p - 1)) \<le> x / q"
    using b(1) q unfolding s by (simp add: pos_le_divide_eq)
  then have "2 ^ nat (p - 1) \<le> round_even (x / q)"
    by (rule round_even_ge)
  then have "real_of_int (2 ^ nat (p - 1)) \<le> real_of_int (round_even (x / q))"
    by (simp only: of_int_le_iff)
  then have "real_of_int (2 ^ nat (p - 1)) * q \<le> real_of_int (round_even (x / q)) * q"
    using q by (intro mult_right_mono) simp_all
  then have y: "2 powi (ilog2 x) \<le> real_of_int (round_even (x / q)) * q"
    by (simp only: s)
  have "(2::real) powi (emax + 1) \<le> 2 powi (ilog2 x)"
    using e1 by (intro power_int_increasing) simp_all
  with y have big: "2 powi (emax + 1) \<le> real_of_int (round_even (x / q)) * q"
    by linarith
  have "0 \<le> real_of_int (round_even (x / q)) * q"
    using big zero_less_power_int [of "2::real" "emax + 1"] by linarith
  then have "2 powi (emax + 1) \<le> \<bar>real_of_int (round_even (x / q)) * q\<bar>"
    using big by simp
  then show ?thesis
    using x unfolding round_to_def Let_def ax e q_def by simp
qed

lemma binary64_tenth: "binary64 (1 / 10) = Fin (3602879701896397 / 36028797018963968)"
  unfolding binary64_def
  by (subst round_to_neg [where m = 4]) (simp_all add: round_even_def Let_def)

lemma stored_tenth:
  "binary32 (3602879701896397 / 36028797018963968) = Fin (13421773 / 134217728)"
  unfolding binary32_def
  by (subst round_to_neg [where m = 4]) (simp_all add: round_even_def Let_def)

lemma stored_2p130: "binary32 1361129467683753853853498429727072845824 = PInf"
  unfolding binary32_def
  by (rule round_to_overflow) simp_all

lemma fresh33_length: "length (heap fresh33 (buffer1 \<lparr>buffer1 = 0, buffer2 = 1\<rparr>)) = nat (3 * 3)"
  by (simp add: fresh33_def)

lemma poked33_heap1: "heap poked33 1 = replicate 9 (fround (Fin 0))"
  by (simp add: poked33_def)

lemma cell11: "(0::int) \<le> 1" "(1::int) < 3" "(0::int) \<le> 1" "(1::int) < 3"
  by simp_all

lemma cell00: "(0::int) \<le> 0" "(0::int) < 3" "(0::int) \<le> 0" "(0::int) < 3"
  by simp_all

text \<open>
  C4, as the code has it. In a state whose two arrays are distinct and whose current
  array holds \<open>width * height\<close> cells, after the handler ran with the pointer at
  \<open>(x, y)\<close> a cell \<open>(cx, cy)\<close> of the grid holds, if it lies in the square and
  whatever it held before, the strength converted to binary32: the binary32 number
  nearest to a finite strength (an infinity beyond the binary32 range), and the strength
  itself if that is NaN or an infinity. Otherwise the cell holds its old value. The
  scratch array, the two references and the length of the current array are unchanged, and
  a square that misses the grid leaves the whole state as it was. The handler has no error
  result.
\<close>

theorem inject_square:
  assumes "rippleData st = Some rd" and "buffer1 rd \<noteq> buffer2 rd"
    and "length (heap st (buffer1 rd)) = nat (width * height)"
    and "0 \<le> cx" and "cx < width" and "0 \<le> cy" and "cy < height"
    and "st' = handleMouseMove width height rippleSize strength x y st"
  shows "f32_get (heap st' (buffer1 rd)) (cy * width + cx) =
      (if y - rippleSize \<le> cy \<and> cy < y + rippleSize \<and> x - rippleSize \<le> cx \<and> cx < x + rippleSize
       then to_f32 strength else f32_get (heap st (buffer1 rd)) (cy * width + cx))
    \<and> heap st' (buffer2 rd) = heap st (buffer2 rd)
    \<and> rippleData st' = rippleData st
    \<and> length (heap st' (buffer1 rd)) = length (heap st (buffer1 rd))
    \<and> (x + rippleSize \<le> 0 \<or> width \<le> x - rippleSize \<or> y + rippleSize \<le> 0
         \<or> height \<le> y - rippleSize \<longrightarrow> st' = st)
    \<and> (\<forall>r. strength = Fin r \<longrightarrow> to_f32 strength = binary32 r)
    \<and> (\<not> is_finite strength \<longrightarrow> to_f32 strength = strength)"
proof -
  have cell: "f32_get (heap st' (buffer1 rd)) (cy * width + cx) =
      (if y - rippleSize \<le> cy \<and> cy < y + rippleSize \<and> x - rippleSize \<le> cx \<and> cx < x + rippleSize
       then to_f32 strength else f32_get (heap st (buffer1 rd)) (cy * width + cx))"
    unfolding assms(8) using assms(1,3-7) by (rule handleMouseMove_cell)
  have other: "heap st' (buffer2 rd) = heap st (buffer2 rd)"
    using assms by (simp add: handleMouseMove_heap)
  have len: "length (heap st' (buffer1 rd)) = length (heap st (buffer1 rd))"
    using assms by (simp add: handleMouseMove_heap)
  have out: "x + rippleSize \<le> 0 \<or> width \<le> x - rippleSize \<or> y + rippleSize \<le> 0
         \<or> height \<le> y - rippleSize \<longrightarrow> st' = st"
    using assms(1,8) by (auto simp: handleMouseMove_def inject_rows_outside)
  have cv: "(\<forall>r. strength = Fin r \<longrightarrow> to_f32 strength = binary32 r)
      \<and> (\<not> is_finite strength \<longrightarrow> to_f32 strength = strength)"
    by (cases strength) simp_all
  from cell other len out cv assms(8) show ?thesis by simp
qed

text \<open>
  C4 as amended, on the disturbed 3 by 3 field, with strength 100 at \<open>(2, 2)\<close>: the
  centre cell goes from 512 to 100, cell 0 keeps 512, the scratch array stays zero; with
  the pointer at \<open>(10, 10)\<close> nothing changes; and with strength 0.1 the centre cell
  holds \<open>13421773 / 134217728\<close>.
\<close>

theorem inject_square_witness:
  "f32_get (heap (handleMouseMove 3 3 1 (Fin 100) 2 2 poked33) 0) 4 = Fin 100
   \<and> f32_get (heap poked33 0) 4 = Fin 512
   \<and> f32_get (heap (handleMouseMove 3 3 1 (Fin 100) 2 2 poked33) 0) 0 = Fin 512
   \<and> heap (handleMouseMove 3 3 1 (Fin 100) 2 2 poked33) 1 = replicate 9 (fround (Fin 0))
   \<and> handleMouseMove 3 3 1 (Fin 100) 10 10 poked33 = poked33
   \<and> f32_get (heap (handleMouseMove 3 3 1 (binary64 (1 / 10)) 2 2 poked33) 0) 4
       = Fin (13421773 / 134217728)"
proof -
  have d: "f32_get (heap poked33 0) 0 = Fin 512" "f32_get (heap poked33 0) 4 = Fin 512"
    by (simp_all add: poked33_def f32_get_def)
  note inst = inject_square [where st = poked33 and rd = "\<lparr>buffer1 = 0, buffer2 = 1\<rparr>"
      and width = 3 and height = 3 and rippleSize = 1, OF poked33_rd _ poked33_length(1)]
  have a: "f32_get (heap (handleMouseMove 3 3 1 (Fin 100) 2 2 poked33) 0) 4 = Fin 100"
    using inst [OF _ cell11 refl, of "Fin 100" 2 2]
    by (simp only: ripple_data.simps) simp
  have b: "f32_get (heap (handleMouseMove 3 3 1 (Fin 100) 2 2 poked33) 0) 0 = Fin 512
      \<and> heap (handleMouseMove 3 3 1 (Fin 100) 2 2 poked33) 1 = replicate 9 (fround (Fin 0))"
    using inst [OF _ cell00 refl, of "Fin 100" 2 2] d(1) poked33_heap1
    by (simp only: ripple_data.simps) simp
  have c: "handleMouseMove 3 3 1 (Fin 100) 10 10 poked33 = poked33"
    using inst [OF _ cell00 refl, of "Fin 100" 10 10]
    by (simp only: ripple_data.simps) simp
  have e: "f32_get (heap (handleMouseMove 3 3 1 (binary64 (1 / 10)) 2 2 poked33) 0) 4
       = Fin (13421773 / 134217728)"
    using inst [OF _ cell11 refl, of "binary64 (1 / 10)" 2 2]
    by (simp only: ripple_data.simps binary64_tenth) (simp add: stored_tenth)
  from a d(2) b c e show ?thesis
    by (intro conjI) simp_all
qed

text \<open>
  C4, as stated, fails: the cells of the square do not hold the strength in general. A
  pointer move with strength 0.1, the binary64 number \<open>3602879701896397 / 2^55\<close>, on the
  fresh 3 by 3 field leaves \<open>13421773 / 2^27 = 0.10000000149011612\<close> in the centre cell,
  and one with the finite strength \<open>2^130\<close> leaves \<open>Infinity\<close> there.
\<close>

theorem stored_strength_is_rounded:
  "binary64 (1 / 10) = Fin (3602879701896397 / 36028797018963968)
   \<and> f32_get (heap (handleMouseMove 3 3 1 (binary64 (1 / 10)) 1 1 fresh33) 0) 4
       = Fin (13421773 / 134217728)
   \<and> (13421773 / 134217728 :: real) \<noteq> 3602879701896397 / 36028797018963968
   \<and> f32_get
       (heap (handleMouseMove 3 3 1 (Fin 1361129467683753853853498429727072845824) 1 1 fresh33) 0) 4
       = PInf"
proof -
  have a: "f32_get (heap (handleMouseMove 3 3 1 (binary64 (1 / 10)) 1 1 fresh33) 0) 4
       = Fin (13421773 / 134217728)"
    using handleMouseMove_cell [OF fresh33_rd fresh33_length cell11,
        where rippleSize = 1 and strength = "binary64 (1 / 10)" and x = 1 and y = 1]
    by (simp only: ripple_data.simps binary64_tenth) (simp add: stored_tenth)
  have b: "f32_get
       (heap (handleMouseMove 3 3 1 (Fin 1361129467683753853853498429727072845824) 1 1 fresh33) 0) 4
       = PInf"
    using handleMouseMove_cell [OF fresh33_rd fresh33_length cell11,
        where rippleSize = 1 and strength = "Fin 1361129467683753853853498429727072845824"
          and x = 1 and y = 1]
    by (simp only: ripple_data.simps) (simp add: stored_2p130)
  have c: "(13421773 / 134217728 :: real) \<noteq> 3602879701896397 / 36028797018963968"
    by simp
  from binary64_tenth a c b show ?thesis
    by (intro conjI)
qed

text \<open>
  C10. With \<open>rippleSize \<le> 0\<close> the outer loop runs from \<open>y - rippleSize\<close> while
  \<open>j < y + rippleSize\<close>, which is no iteration: the state, both arrays included, is
  returned as it was. The model of \<^verbatim>\<open>handleMouseMove\<close> has no error result.
\<close>

theorem nonpositive_rippleSize_no_write:
  "rippleSize \<le> 0 \<Longrightarrow> handleMouseMove width height rippleSize strength x y st = st"
  by (cases "rippleData st") (simp_all add: handleMouseMove_def inject_rows.simps)

text \<open>C10 at \<open>rippleSize = 0\<close> and at \<open>rippleSize = -2\<close>, on the disturbed 3 by 3 field.\<close>

theorem nonpositive_rippleSize_no_write_witness:
  "handleMouseMove 3 3 0 (Fin 512) 1 1 poked33 = poked33 \<and>
   handleMouseMove 3 3 (- 2) (Fin 512) 1 1 poked33 = poked33"
  using nonpositive_rippleSize_no_write [of 0 3 3 "Fin 512" 1 1 poked33]
    nonpositive_rippleSize_no_write [of "- 2" 3 3 "Fin 512" 1 1 poked33]
  by simp

section \<open>The invariant of the height field\<close>

text \<open>
  The theorems above assume two distinct arrays of \<open>width * height\<close> cells. The
  creation establishes this, and the pointer handler and the frame function keep it, so it
  holds in every state the component reaches.
\<close>

lemma create_field_ok: "create limit width height = Inr st \<Longrightarrow> field_ok width height st"
  by (auto simp: create_def new_Float32Array_def field_ok_def Let_def split: if_splits)

lemma handleMouseMove_field_ok:
  "field_ok width height st \<Longrightarrow>
   field_ok width height (handleMouseMove width' height' rippleSize strength x y st)"
  by (cases "rippleData st") (auto simp: field_ok_def handleMouseMove_heap)

lemma update_field_ok:
  "field_ok width height st \<Longrightarrow>
   field_ok width height (fst (update width' height' viscosity speed imgData st))"
  by (cases "rippleData st")
    (auto simp: field_ok_def update_def Let_def swap_def step_heap step_loop_other
      step_loop_length)

end
